theory Spec2Isabelle
  imports Main "HOL-Library.Word" "HOL-Library.Signed_Division"
begin

unbundle bit_operations_syntax

section \<open>Platform configuration\<close>

text \<open>
  The header \<^verbatim>\<open>integer.h\<close> selects the width of a small integer by the preprocessor.
  This development embeds the first branch, \<^verbatim>\<open>INTPTR_SIZE==8\<close>: \<^verbatim>\<open>int_t\<close> and
  \<^verbatim>\<open>uint_t\<close> are the 64-bit \<^verbatim>\<open>intptr_t\<close> and \<^verbatim>\<open>uintptr_t\<close>, \<^verbatim>\<open>smallint_t\<close> is
  \<^verbatim>\<open>int32_t\<close> and \<^verbatim>\<open>SMALLINT_BITS\<close> is 32. A word carries no sign of its own: a signed
  reading is \<open>sint\<close> and \<open><s\<close>, an unsigned one \<open>uint\<close> and \<open><\<close>.
\<close>

type_synonym int_t = "64 word"
type_synonym uint_t = "64 word"
type_synonym smallint_t = "32 word"
type_synonym integer_t = "64 word"

definition INTPTR_BITS :: nat where
  "INTPTR_BITS = 64"

definition SMALLINT_BITS :: nat where
  "SMALLINT_BITS = 32"

definition INTPTR_MAX :: int_t where
  "INTPTR_MAX = 0x7FFFFFFFFFFFFFFF"

text \<open>
  \<^verbatim>\<open>#define SMALLINT_MAX ((int_t)(((uint_t)INTPTR_MAX >> (INTPTR_BITS - SMALLINT_BITS)) >> 2))\<close>
  and \<^verbatim>\<open>#define SMALLINT_MIN (-SMALLINT_MAX - 1)\<close>.
\<close>

definition SMALLINT_MAX :: int_t where
  "SMALLINT_MAX = drop_bit 2 (drop_bit (INTPTR_BITS - SMALLINT_BITS) INTPTR_MAX)"

definition SMALLINT_MIN :: int_t where
  "SMALLINT_MIN = - SMALLINT_MAX - 1"

text \<open>
  The typedef of \<^verbatim>\<open>integer_t\<close> lives in \<^verbatim>\<open>runtime.h\<close>, which is not among the sources, so
  whether \<^verbatim>\<open>x < y\<close> on two \<^verbatim>\<open>integer_t\<close> is a signed or an unsigned comparison is a
  parameter of every function that compares encoded words directly. The header itself
  treats \<^verbatim>\<open>integer_t\<close> as the unsigned box word: every sign-sensitive use casts to
  \<^verbatim>\<open>int_t\<close> first (\<^verbatim>\<open>(int_t)x<0\<close> in \<^verbatim>\<open>integer_is_neg\<close>, \<^verbatim>\<open>(int_t)x>1\<close> in
  \<^verbatim>\<open>integer_is_pos\<close> and \<^verbatim>\<open>integer_signum\<close>, the operands of the overflow checks and of
  \<^verbatim>\<open>sar\<close>), every \<^verbatim>\<open>int_t\<close> result is cast back with \<^verbatim>\<open>(integer_t)\<close>, the result of
  \<^verbatim>\<open>shr\<close> is returned with no cast, and \<^verbatim>\<open>box_integer_t\<close> returns an \<^verbatim>\<open>integer_t\<close> as a
  \<^verbatim>\<open>box_t\<close>. The comparisons of \<^verbatim>\<open>integer_cmp\<close>, \<^verbatim>\<open>integer_lt\<close> and the others, and of
  \<^verbatim>\<open>integer_max\<close> and \<^verbatim>\<open>integer_min\<close>, compare two \<^verbatim>\<open>integer_t\<close> with no cast:
  \<open>Unsigned\<close> is the reading the header supports.
\<close>

datatype signedness = Signed | Unsigned

definition integer_t_less :: "signedness \<Rightarrow> integer_t \<Rightarrow> integer_t \<Rightarrow> bool" where
  "integer_t_less sg x y = (case sg of Signed \<Rightarrow> x <s y | Unsigned \<Rightarrow> x < y)"

definition integer_t_less_eq :: "signedness \<Rightarrow> integer_t \<Rightarrow> integer_t \<Rightarrow> bool" where
  "integer_t_less_eq sg x y = (case sg of Signed \<Rightarrow> x \<le>s y | Unsigned \<Rightarrow> x \<le> y)"

section \<open>Runtime primitives used by the header\<close>

text \<open>
  Modelled from the spec: the shift helper \<^verbatim>\<open>sar\<close> of \<^verbatim>\<open>runtime.h\<close> (not among the
  sources). The spec calls it an arithmetic, sign-preserving shift right.
\<close>

definition sar :: "int_t \<Rightarrow> nat \<Rightarrow> int_t" where
  "sar i shift = signed_drop_bit shift i"

text \<open>
  Modelled from the spec: \<^verbatim>\<open>box_int\<close>, \<^verbatim>\<open>unbox_int\<close> and the tag tests of \<^verbatim>\<open>runtime.h\<close>
  (not among the sources). The header's opening comment fixes the encoding
  \<^verbatim>\<open>boxed(n) == 4*n + 1\<close>, and the comment above \<^verbatim>\<open>integer_add\<close> the low two bits of a
  pointer (00) and of a small integer (01); \<^verbatim>\<open>are_smallints\<close> tests bit 0 only, and so do
  the fast tests here.
\<close>

definition box_int :: "int_t \<Rightarrow> integer_t" where
  "box_int i = 4 * i + 1"

definition unbox_int :: "integer_t \<Rightarrow> int_t" where
  "unbox_int v = sar v 2"

definition is_int :: "integer_t \<Rightarrow> bool" where
  "is_int b = (b AND 3 = 1)"

definition is_ptr :: "integer_t \<Rightarrow> bool" where
  "is_ptr b = (b AND 3 = 0)"

definition is_int_fast :: "integer_t \<Rightarrow> bool" where
  "is_int_fast b = (b AND 1 \<noteq> 0)"

definition is_ptr_fast :: "integer_t \<Rightarrow> bool" where
  "is_ptr_fast b = (b AND 1 = 0)"

text \<open>The encoding of a mathematical integer: \<^verbatim>\<open>boxed(n)\<close> of the header's comment.\<close>

definition boxed :: "int \<Rightarrow> integer_t" where
  "boxed n = box_int (word_of_int n)"

definition small_range :: "int \<Rightarrow> bool" where
  "small_range n = (sint SMALLINT_MIN \<le> n \<and> n \<le> sint SMALLINT_MAX)"

text \<open>
  The signed range of \<^verbatim>\<open>smallint_t\<close> (\<^verbatim>\<open>SMALLINT_BITS\<close> bits) and of the native
  \<^verbatim>\<open>int_t\<close> (\<^verbatim>\<open>INTPTR_BITS\<close> bits), for stating what the overflow checks decide.
\<close>

definition smallint_range :: "int \<Rightarrow> bool" where
  "smallint_range k = (- (2 ^ (SMALLINT_BITS - 1)) \<le> k \<and> k < 2 ^ (SMALLINT_BITS - 1))"

definition native_range :: "int \<Rightarrow> bool" where
  "native_range k = (- (2 ^ (INTPTR_BITS - 1)) \<le> k \<and> k < 2 ^ (INTPTR_BITS - 1))"

subsection \<open>Reference counts and faults\<close>

text \<open>
  Modelled from the spec: the heap of big integers and \<^verbatim>\<open>boxed_dup\<close>, \<^verbatim>\<open>boxed_drop\<close> of
  \<^verbatim>\<open>runtime.h\<close> (not among the sources). A Big value is a reference-counted handle,
  shared by incrementing on each new holder and destroyed by decrementing to zero;
  duplicating or releasing a Small value is a no-op. The heap maps the address of a
  bigint block to the number of references held to it, 0 for an address with no live
  bigint block. Touching the count of a dead block is a fault of the model, so that a
  double release is visible.
\<close>

type_synonym heap = "integer_t \<Rightarrow> nat"

datatype fault =
    Division_by_zero
  | Undefined_behaviour
  | Dead_reference

type_synonym 'a rt = "heap \<Rightarrow> fault + 'a \<times> heap"

definition boxed_dup :: "integer_t \<Rightarrow> heap \<Rightarrow> fault + heap" where
  "boxed_dup x h =
     (if is_ptr_fast x
      then (if h x = 0 then Inl Dead_reference else Inr (h(x := Suc (h x))))
      else Inr h)"

definition boxed_drop :: "integer_t \<Rightarrow> heap \<Rightarrow> fault + heap" where
  "boxed_drop x h =
     (if is_ptr_fast x
      then (if h x = 0 then Inl Dead_reference else Inr (h(x := h x - 1)))
      else Inr h)"

section \<open>Classification\<close>

text \<open>
  \<^verbatim>\<open>is_integer\<close>: a small integer within bounds, or a pointer to a block tagged
  \<^verbatim>\<open>TAG_BIGINT\<close>; the heap of this model holds bigint blocks only, so the tag test is
  that the block is live. The \<^verbatim>\<open>assert_internal\<close> lines of the header are debug
  assertions and compute nothing; they are the preconditions of the theorems below.
\<close>

definition is_integer :: "heap \<Rightarrow> integer_t \<Rightarrow> bool" where
  "is_integer h i =
     ((is_int i \<and> SMALLINT_MIN \<le>s unbox_int i \<and> unbox_int i \<le>s SMALLINT_MAX)
      \<or> (is_ptr i \<and> 0 < h i))"

definition is_bigint :: "integer_t \<Rightarrow> bool" where
  "is_bigint i = is_ptr_fast i"

definition is_smallint :: "integer_t \<Rightarrow> bool" where
  "is_smallint i = is_int_fast i"

definition are_smallints :: "integer_t \<Rightarrow> integer_t \<Rightarrow> bool" where
  "are_smallints i j = ((i AND j) AND 1 \<noteq> 0)"

definition integer_from_small :: "int_t \<Rightarrow> integer_t" where
  "integer_from_small i = box_int i"

definition integer_incref :: "integer_t \<Rightarrow> heap \<Rightarrow> fault + heap" where
  "integer_incref x h = boxed_dup x h"

definition integer_decref :: "integer_t \<Rightarrow> heap \<Rightarrow> fault + heap" where
  "integer_decref x h = boxed_drop x h"

text \<open>
  \<^verbatim>\<open>integer_from_int\<close>; the big constructor \<^verbatim>\<open>integer_from_big\<close> is only declared in
  the header and is taken as the parameter \<open>from_big\<close>.
\<close>

definition integer_from_int :: "(int_t \<Rightarrow> integer_t rt) \<Rightarrow> int_t \<Rightarrow> integer_t rt" where
  "integer_from_int from_big i ctx =
     (if SMALLINT_MIN \<le>s i \<and> i \<le>s SMALLINT_MAX
      then Inr (integer_from_small i, ctx)
      else from_big i ctx)"

section \<open>Overflow detection\<close>

text \<open>
  With \<^verbatim>\<open>__GNUC__\<close> the header uses the overflow builtins on \<^verbatim>\<open>smallint_t\<close>: the
  operands are converted to 32 bits, the builtin stores the wrapped result and returns
  whether it differs from the exact one, and the result is sign-extended.
\<close>

definition smallint_add_ovf_builtin :: "int_t \<Rightarrow> int_t \<Rightarrow> bool \<times> int_t" where
  "smallint_add_ovf_builtin h y =
     (let a = (ucast h :: smallint_t); b = (ucast y :: smallint_t); i = a + b
      in (sint a + sint b \<noteq> sint i, scast i))"

definition smallint_sub_ovf_builtin :: "int_t \<Rightarrow> int_t \<Rightarrow> bool \<times> int_t" where
  "smallint_sub_ovf_builtin h y =
     (let a = (ucast h :: smallint_t); b = (ucast y :: smallint_t); i = a - b
      in (sint a - sint b \<noteq> sint i, scast i))"

definition smallint_mul_ovf_builtin :: "int_t \<Rightarrow> int_t \<Rightarrow> bool \<times> int_t" where
  "smallint_mul_ovf_builtin h y =
     (let a = (ucast h :: smallint_t); b = (ucast y :: smallint_t); i = a * b
      in (sint a * sint b \<noteq> sint i, scast i))"

text \<open>
  Otherwise the generic detection: the operation at full width, then a test that the
  bits from \<^verbatim>\<open>SMALLINT_BITS - 1\<close> upwards are all 0 or all 1. The full-width operation
  wraps around here; in C it is undefined when the exact result does not fit
  \<^verbatim>\<open>int_t\<close>.
\<close>

definition smallint_add_ovf_generic :: "int_t \<Rightarrow> int_t \<Rightarrow> bool \<times> int_t" where
  "smallint_add_ovf_generic x y =
     (let z = x + y; s = (sar z (SMALLINT_BITS - 1) :: uint_t)
      in (s + 1 > 1, z))"

definition smallint_sub_ovf_generic :: "int_t \<Rightarrow> int_t \<Rightarrow> bool \<times> int_t" where
  "smallint_sub_ovf_generic x y =
     (let z = x - y; s = (sar z (SMALLINT_BITS - 1) :: uint_t)
      in (s + 1 > 1, z))"

definition smallint_mul_ovf_generic :: "int_t \<Rightarrow> int_t \<Rightarrow> bool \<times> int_t" where
  "smallint_mul_ovf_generic x y =
     (let z = x * y; s = (sar z (SMALLINT_BITS - 1) :: uint_t)
      in (s + 1 > 1, z))"

text \<open>Which of the two the compiler selects (\<^verbatim>\<open>#if defined(__GNUC__) && ...\<close>).\<close>

datatype ovf_impl = Builtin | Generic

definition smallint_add_ovf :: "ovf_impl \<Rightarrow> int_t \<Rightarrow> int_t \<Rightarrow> bool \<times> int_t" where
  "smallint_add_ovf impl x y =
     (case impl of Builtin \<Rightarrow> smallint_add_ovf_builtin x y
                 | Generic \<Rightarrow> smallint_add_ovf_generic x y)"

definition smallint_sub_ovf :: "ovf_impl \<Rightarrow> int_t \<Rightarrow> int_t \<Rightarrow> bool \<times> int_t" where
  "smallint_sub_ovf impl x y =
     (case impl of Builtin \<Rightarrow> smallint_sub_ovf_builtin x y
                 | Generic \<Rightarrow> smallint_sub_ovf_generic x y)"

definition smallint_mul_ovf :: "ovf_impl \<Rightarrow> int_t \<Rightarrow> int_t \<Rightarrow> bool \<times> int_t" where
  "smallint_mul_ovf impl x y =
     (case impl of Builtin \<Rightarrow> smallint_mul_ovf_builtin x y
                 | Generic \<Rightarrow> smallint_mul_ovf_generic x y)"

section \<open>Fast arithmetic on small integers\<close>

text \<open>
  The generic operations (\<^verbatim>\<open>integer_add_generic\<close> and the others) are only declared
  in the header: each is a parameter of the function that calls it, of the type of the
  call, and receives the heap as the context.
\<close>

type_synonym binop_generic = "integer_t \<Rightarrow> integer_t \<Rightarrow> integer_t rt"

definition integer_add_small :: "ovf_impl \<Rightarrow> binop_generic \<Rightarrow> integer_t \<Rightarrow> integer_t \<Rightarrow> integer_t rt" where
  "integer_add_small impl integer_add_generic x y ctx =
     (case smallint_add_ovf impl x (y XOR 1) of
        (ovf, i) \<Rightarrow> if \<not> ovf then Inr (i, ctx) else integer_add_generic x y ctx)"

definition integer_add :: "ovf_impl \<Rightarrow> binop_generic \<Rightarrow> integer_t \<Rightarrow> integer_t \<Rightarrow> integer_t rt" where
  "integer_add impl integer_add_generic x y ctx =
     (case smallint_add_ovf impl x y of
        (ovf, i) \<Rightarrow>
          if \<not> ovf \<and> i AND 2 \<noteq> 0 then Inr (i XOR 3, ctx)
          else integer_add_generic x y ctx)"

text \<open>
  The uniform dispatch rule of the spec for addition: test \<^verbatim>\<open>are_smallints\<close> first, the
  fast path on true and the generic operation on false. The header keeps this version of
  \<^verbatim>\<open>integer_add\<close> in a comment above the optimised one.
\<close>

definition integer_add_dispatch :: "ovf_impl \<Rightarrow> binop_generic \<Rightarrow> integer_t \<Rightarrow> integer_t \<Rightarrow> integer_t rt" where
  "integer_add_dispatch impl integer_add_generic x y ctx =
     (if are_smallints x y then integer_add_small impl integer_add_generic x y ctx
      else integer_add_generic x y ctx)"

definition integer_sub_small :: "ovf_impl \<Rightarrow> binop_generic \<Rightarrow> integer_t \<Rightarrow> integer_t \<Rightarrow> integer_t rt" where
  "integer_sub_small impl integer_sub_generic x y ctx =
     (case smallint_sub_ovf impl x (y XOR 1) of
        (ovf, i) \<Rightarrow> if \<not> ovf then Inr (i, ctx) else integer_sub_generic x y ctx)"

definition integer_sub :: "ovf_impl \<Rightarrow> binop_generic \<Rightarrow> integer_t \<Rightarrow> integer_t \<Rightarrow> integer_t rt" where
  "integer_sub impl integer_sub_generic x y ctx =
     (if are_smallints x y then integer_sub_small impl integer_sub_generic x y ctx
      else integer_sub_generic x y ctx)"

definition integer_mul_small :: "ovf_impl \<Rightarrow> binop_generic \<Rightarrow> integer_t \<Rightarrow> integer_t \<Rightarrow> integer_t rt" where
  "integer_mul_small impl integer_mul_generic x y ctx =
     (let i = sar x 1; j = sar y 1
      in case smallint_mul_ovf impl i j of
           (ovf, k) \<Rightarrow> if \<not> ovf then Inr (k OR 1, ctx) else integer_mul_generic x y ctx)"

definition integer_mul :: "ovf_impl \<Rightarrow> binop_generic \<Rightarrow> integer_t \<Rightarrow> integer_t \<Rightarrow> integer_t rt" where
  "integer_mul impl integer_mul_generic x y ctx =
     (if are_smallints x y then integer_mul_small impl integer_mul_generic x y ctx
      else integer_mul_generic x y ctx)"

section \<open>Division and modulus\<close>

text \<open>
  The fast paths divide natively: \<^verbatim>\<open>i/j\<close> and \<^verbatim>\<open>i%j\<close> on \<^verbatim>\<open>int_t\<close> truncate towards
  zero (\<open>sdiv\<close>, \<open>smod\<close> on the signed values), and with \<^verbatim>\<open>j == 0\<close> the behaviour of the C program is
  undefined: there is no test of the divisor and nothing is reported. The helper
  \<^verbatim>\<open>shr\<close> of \<^verbatim>\<open>runtime.h\<close> is not among the sources and is the parameter \<open>shr\<close>.
\<close>

definition int_t_div :: "int_t \<Rightarrow> int_t \<Rightarrow> int_t" where
  "int_t_div i j = word_of_int (sint i sdiv sint j)"

definition int_t_mod :: "int_t \<Rightarrow> int_t \<Rightarrow> int_t" where
  "int_t_mod i j = word_of_int (sint i smod sint j)"

definition integer_div_small :: "(uint_t \<Rightarrow> nat \<Rightarrow> uint_t) \<Rightarrow> integer_t \<Rightarrow> integer_t \<Rightarrow> fault + integer_t" where
  "integer_div_small shr x y =
     (let i = sar x 1; j = sar y 1
      in if j = 0 then Inl Undefined_behaviour else Inr (shr (int_t_div i j) 2 OR 1))"

definition integer_mod_small :: "(uint_t \<Rightarrow> nat \<Rightarrow> uint_t) \<Rightarrow> integer_t \<Rightarrow> integer_t \<Rightarrow> fault + integer_t" where
  "integer_mod_small shr x y =
     (let i = sar x 1; j = sar y 1
      in if j = 0 then Inl Undefined_behaviour else Inr (shr (int_t_mod i j) 1 OR 1))"

text \<open>The out-parameter \<^verbatim>\<open>*mod\<close> is the second component of the result.\<close>

definition integer_div_mod_small :: "(uint_t \<Rightarrow> nat \<Rightarrow> uint_t) \<Rightarrow> integer_t \<Rightarrow> integer_t \<Rightarrow> fault + integer_t \<times> integer_t" where
  "integer_div_mod_small shr x y =
     (let i = sar x 1; j = sar y 1
      in if j = 0 then Inl Undefined_behaviour
         else Inr (shr (int_t_div i j) 2 OR 1, shr (int_t_mod i j) 1 OR 1))"

definition integer_div :: "(uint_t \<Rightarrow> nat \<Rightarrow> uint_t) \<Rightarrow> binop_generic \<Rightarrow> integer_t \<Rightarrow> integer_t \<Rightarrow> integer_t rt" where
  "integer_div shr integer_div_generic x y ctx =
     (if are_smallints x y
      then (case integer_div_small shr x y of Inl e \<Rightarrow> Inl e | Inr r \<Rightarrow> Inr (r, ctx))
      else integer_div_generic x y ctx)"

definition integer_mod :: "(uint_t \<Rightarrow> nat \<Rightarrow> uint_t) \<Rightarrow> binop_generic \<Rightarrow> integer_t \<Rightarrow> integer_t \<Rightarrow> integer_t rt" where
  "integer_mod shr integer_mod_generic x y ctx =
     (if are_smallints x y
      then (case integer_mod_small shr x y of Inl e \<Rightarrow> Inl e | Inr r \<Rightarrow> Inr (r, ctx))
      else integer_mod_generic x y ctx)"

definition integer_div_mod :: "(uint_t \<Rightarrow> nat \<Rightarrow> uint_t) \<Rightarrow> (integer_t \<Rightarrow> integer_t \<Rightarrow> (integer_t \<times> integer_t) rt) \<Rightarrow> integer_t \<Rightarrow> integer_t \<Rightarrow> (integer_t \<times> integer_t) rt" where
  "integer_div_mod shr integer_div_mod_generic x y ctx =
     (if are_smallints x y
      then (case integer_div_mod_small shr x y of Inl e \<Rightarrow> Inl e | Inr r \<Rightarrow> Inr (r, ctx))
      else integer_div_mod_generic x y ctx)"

text \<open>
  Modelled from the spec: the failure contract of \<^verbatim>\<open>integer_div_generic\<close>,
  \<^verbatim>\<open>integer_mod_generic\<close> and \<^verbatim>\<open>integer_div_mod_generic\<close> (declared in the header, defined
  outside the sources): division and modulo by a zero divisor is an explicit, reported
  failure. A Big value never equals a Small sentinel, so the zero divisor is the encoded
  word of 0. What the digit engine computes for another divisor is the parameter
  \<open>engine\<close>.
\<close>

definition div_generic_contract :: "(integer_t \<Rightarrow> integer_t \<Rightarrow> 'a rt) \<Rightarrow> integer_t \<Rightarrow> integer_t \<Rightarrow> 'a rt" where
  "div_generic_contract engine x y ctx =
     (if y = box_int 0 then Inl Division_by_zero else engine x y ctx)"

section \<open>Negation\<close>

definition integer_neg :: "ovf_impl \<Rightarrow> binop_generic \<Rightarrow> (integer_t \<Rightarrow> integer_t rt) \<Rightarrow> integer_t \<Rightarrow> integer_t rt" where
  "integer_neg impl integer_sub_generic integer_neg_generic x ctx =
     (if is_smallint x then integer_sub_small impl integer_sub_generic (box_int 0) x ctx
      else integer_neg_generic x ctx)"

section \<open>Comparison\<close>

type_synonym cmp_generic = "integer_t \<Rightarrow> integer_t \<Rightarrow> int rt"

definition integer_cmp :: "signedness \<Rightarrow> cmp_generic \<Rightarrow> integer_t \<Rightarrow> integer_t \<Rightarrow> int rt" where
  "integer_cmp sg integer_cmp_generic x y ctx =
     (if are_smallints x y
      then Inr ((if x = y then 0 else if integer_t_less sg y x then 1 else -1), ctx)
      else integer_cmp_generic x y ctx)"

text \<open>The result of a call, tested by the caller: \<^verbatim>\<open>(integer_cmp(x, y, ctx) == -1)\<close>.\<close>

definition tested :: "('a \<Rightarrow> 'b) \<Rightarrow> fault + 'a \<times> heap \<Rightarrow> fault + 'b \<times> heap" where
  "tested f r = (case r of Inl e \<Rightarrow> Inl e | Inr (c, ctx) \<Rightarrow> Inr (f c, ctx))"

definition integer_lt :: "signedness \<Rightarrow> cmp_generic \<Rightarrow> integer_t \<Rightarrow> integer_t \<Rightarrow> bool rt" where
  "integer_lt sg integer_cmp_generic x y ctx =
     (if are_smallints x y then Inr (integer_t_less sg x y, ctx)
      else tested (\<lambda>c. c = -1) (integer_cmp sg integer_cmp_generic x y ctx))"

definition integer_lte :: "signedness \<Rightarrow> cmp_generic \<Rightarrow> integer_t \<Rightarrow> integer_t \<Rightarrow> bool rt" where
  "integer_lte sg integer_cmp_generic x y ctx =
     (if are_smallints x y then Inr (integer_t_less_eq sg x y, ctx)
      else tested (\<lambda>c. c \<le> 0) (integer_cmp sg integer_cmp_generic x y ctx))"

definition integer_gt :: "signedness \<Rightarrow> cmp_generic \<Rightarrow> integer_t \<Rightarrow> integer_t \<Rightarrow> bool rt" where
  "integer_gt sg integer_cmp_generic x y ctx =
     (if are_smallints x y then Inr (integer_t_less sg y x, ctx)
      else tested (\<lambda>c. c = 1) (integer_cmp sg integer_cmp_generic x y ctx))"

definition integer_gte :: "signedness \<Rightarrow> cmp_generic \<Rightarrow> integer_t \<Rightarrow> integer_t \<Rightarrow> bool rt" where
  "integer_gte sg integer_cmp_generic x y ctx =
     (if are_smallints x y then Inr (integer_t_less_eq sg y x, ctx)
      else tested (\<lambda>c. c \<ge> 0) (integer_cmp sg integer_cmp_generic x y ctx))"

definition integer_eq :: "signedness \<Rightarrow> cmp_generic \<Rightarrow> integer_t \<Rightarrow> integer_t \<Rightarrow> bool rt" where
  "integer_eq sg integer_cmp_generic x y ctx =
     (if are_smallints x y then Inr (x = y, ctx)
      else tested (\<lambda>c. c = 0) (integer_cmp sg integer_cmp_generic x y ctx))"

definition integer_neq :: "signedness \<Rightarrow> cmp_generic \<Rightarrow> integer_t \<Rightarrow> integer_t \<Rightarrow> bool rt" where
  "integer_neq sg integer_cmp_generic x y ctx =
     (if are_smallints x y then Inr (x \<noteq> y, ctx)
      else tested (\<lambda>c. c \<noteq> 0) (integer_cmp sg integer_cmp_generic x y ctx))"

text \<open>
  Modelled from the spec: the ownership contract of \<^verbatim>\<open>integer_cmp_generic\<close> (declared in
  the header, defined outside the sources): a generic operation consumes every
  integer-typed argument it receives and returns a primitive output. The order the
  digit engine finds, read from the heap it is called on, is the parameter \<open>verdict\<close>.
\<close>

definition cmp_generic_contract :: "(heap \<Rightarrow> integer_t \<Rightarrow> integer_t \<Rightarrow> int) \<Rightarrow> cmp_generic" where
  "cmp_generic_contract verdict x y ctx =
     (case boxed_drop x ctx of
        Inl e \<Rightarrow> Inl e
      | Inr ctx1 \<Rightarrow>
          (case boxed_drop y ctx1 of
             Inl e \<Rightarrow> Inl e
           | Inr ctx2 \<Rightarrow> Inr (verdict ctx x y, ctx2)))"

section \<open>Predicates\<close>

definition integer_is_zero :: "integer_t \<Rightarrow> bool rt" where
  "integer_is_zero x ctx =
     (if is_smallint x then Inr (x = integer_from_small 0, ctx)
      else (case integer_decref x ctx of Inl e \<Rightarrow> Inl e | Inr ctx1 \<Rightarrow> Inr (False, ctx1)))"

definition integer_is_one :: "integer_t \<Rightarrow> bool rt" where
  "integer_is_one x ctx =
     (if is_smallint x then Inr (x = integer_from_small 1, ctx)
      else (case integer_decref x ctx of Inl e \<Rightarrow> Inl e | Inr ctx1 \<Rightarrow> Inr (False, ctx1)))"

definition integer_is_minus_one :: "integer_t \<Rightarrow> bool rt" where
  "integer_is_minus_one x ctx =
     (if is_smallint x then Inr (x = integer_from_small (-1), ctx)
      else (case integer_decref x ctx of Inl e \<Rightarrow> Inl e | Inr ctx1 \<Rightarrow> Inr (False, ctx1)))"

definition integer_is_even :: "(integer_t \<Rightarrow> bool rt) \<Rightarrow> integer_t \<Rightarrow> bool rt" where
  "integer_is_even integer_is_even_generic x ctx =
     (if is_smallint x then Inr (x AND 0x08 = 0, ctx)
      else integer_is_even_generic x ctx)"

definition integer_is_odd :: "(integer_t \<Rightarrow> bool rt) \<Rightarrow> integer_t \<Rightarrow> bool rt" where
  "integer_is_odd integer_is_even_generic x ctx =
     (if is_smallint x then Inr (x AND 0x08 \<noteq> 0, ctx)
      else tested Not (integer_is_even_generic x ctx))"

section \<open>Maximum and minimum\<close>

definition integer_max :: "signedness \<Rightarrow> cmp_generic \<Rightarrow> integer_t \<Rightarrow> integer_t \<Rightarrow> integer_t rt" where
  "integer_max sg integer_cmp_generic x y ctx =
     (if are_smallints x y then Inr ((if integer_t_less_eq sg y x then x else y), ctx)
      else
        (case integer_incref x ctx of Inl e \<Rightarrow> Inl e | Inr ctx1 \<Rightarrow>
        (case integer_incref y ctx1 of Inl e \<Rightarrow> Inl e | Inr ctx2 \<Rightarrow>
        (case integer_gte sg integer_cmp_generic x y ctx2 of Inl e \<Rightarrow> Inl e | Inr (b, ctx3) \<Rightarrow>
           if b
           then (case integer_decref y ctx3 of Inl e \<Rightarrow> Inl e | Inr ctx4 \<Rightarrow> Inr (x, ctx4))
           else (case integer_decref x ctx3 of Inl e \<Rightarrow> Inl e | Inr ctx4 \<Rightarrow> Inr (y, ctx4))))))"

definition integer_min :: "signedness \<Rightarrow> cmp_generic \<Rightarrow> integer_t \<Rightarrow> integer_t \<Rightarrow> integer_t rt" where
  "integer_min sg integer_cmp_generic x y ctx =
     (if are_smallints x y then Inr ((if integer_t_less_eq sg x y then x else y), ctx)
      else
        (case integer_incref x ctx of Inl e \<Rightarrow> Inl e | Inr ctx1 \<Rightarrow>
        (case integer_incref y ctx1 of Inl e \<Rightarrow> Inl e | Inr ctx2 \<Rightarrow>
        (case integer_lte sg integer_cmp_generic x y ctx2 of Inl e \<Rightarrow> Inl e | Inr (b, ctx3) \<Rightarrow>
           if b
           then (case integer_decref y ctx3 of Inl e \<Rightarrow> Inl e | Inr ctx4 \<Rightarrow> Inr (x, ctx4))
           else (case integer_decref x ctx3 of Inl e \<Rightarrow> Inl e | Inr ctx4 \<Rightarrow> Inr (y, ctx4))))))"

text \<open>
  What a caller of \<^verbatim>\<open>integer_max\<close> holds and what it is left with: \<open>held h x\<close> says that a
  reference to \<open>x\<close> exists to be handed over (nothing to hold for a Small value), and
  \<open>released x h\<close> is the heap after one reference to \<open>x\<close> has been given up.
\<close>

definition held :: "heap \<Rightarrow> integer_t \<Rightarrow> bool" where
  "held h x = (is_bigint x \<longrightarrow> 0 < h x)"

definition released :: "integer_t \<Rightarrow> heap \<Rightarrow> heap" where
  "released x h = (if is_bigint x then h(x := h x - 1) else h)"

definition retained :: "integer_t \<Rightarrow> heap \<Rightarrow> heap" where
  "retained x h = (if is_bigint x then h(x := Suc (h x)) else h)"

section \<open>Facts about the configuration and the encoding\<close>

text \<open>
  On this platform \<^verbatim>\<open>SMALLINT_MAX\<close> is \<open>2^29 - 1\<close>: the 32 bits of \<^verbatim>\<open>smallint_t\<close> less
  the two tag bits.
\<close>

lemma SMALLINT_MAX_value: "SMALLINT_MAX = 536870911"
  by (simp add: SMALLINT_MAX_def INTPTR_MAX_def INTPTR_BITS_def SMALLINT_BITS_def drop_bit_eq_div)

lemma SMALLINT_MIN_value: "SMALLINT_MIN = - 536870912"
  by (simp add: SMALLINT_MIN_def SMALLINT_MAX_value)

lemma small_range_iff: "small_range n \<longleftrightarrow> - 536870912 \<le> n \<and> n \<le> 536870911"
  by (simp add: small_range_def SMALLINT_MAX_value SMALLINT_MIN_value)

lemma in_small_range_iff: "SMALLINT_MIN \<le>s i \<and> i \<le>s SMALLINT_MAX \<longleftrightarrow> small_range (sint i)"
  by (simp only: word_sle_eq small_range_def)

lemma smallint_range_iff: "smallint_range k = (- 2147483648 \<le> k \<and> k < 2147483648)"
  by (simp add: smallint_range_def SMALLINT_BITS_def)

lemma native_range_iff: "native_range k = (- 9223372036854775808 \<le> k \<and> k < 9223372036854775808)"
  by (simp add: native_range_def INTPTR_BITS_def)

subsection \<open>Signed values of words\<close>

lemma sint_word_of_int_64: "- (2 ^ 63) \<le> k \<Longrightarrow> k < 2 ^ 63 \<Longrightarrow> sint (word_of_int k :: 64 word) = k"
  by (simp add: sint_sbintrunc' signed_take_bit_int_eq_self)

lemma sint_word_of_int_32: "- (2 ^ 31) \<le> k \<Longrightarrow> k < 2 ^ 31 \<Longrightarrow> sint (word_of_int k :: 32 word) = k"
  by (simp add: sint_sbintrunc' signed_take_bit_int_eq_self)

lemma sint_native: "native_range k \<Longrightarrow> sint (word_of_int k :: 64 word) = k"
  unfolding native_range_iff by (rule sint_word_of_int_64) simp_all

lemma word_sint_self: "(word_of_int (sint x) :: 64 word) = x"
  by simp

lemma sint_eq_iff: "sint (a :: 64 word) = sint b \<longleftrightarrow> a = b"
  by (auto intro: signed_word_eqI)

lemma sint_add_native: "native_range (sint x + sint y) \<Longrightarrow> sint (x + y :: 64 word) = sint x + sint y"
  by (simp add: sint_word_add native_range_iff signed_take_bit_int_eq_self)

lemma sint_sub_native: "native_range (sint x - sint y) \<Longrightarrow> sint (x - y :: 64 word) = sint x - sint y"
  by (simp add: sint_word_diff native_range_iff signed_take_bit_int_eq_self)

lemma sint_mul_native: "native_range (sint x * sint y) \<Longrightarrow> sint (x * y :: 64 word) = sint x * sint y"
  by (simp add: sint_word_mult native_range_iff signed_take_bit_int_eq_self)

lemma ucast_64_32: "(ucast (x :: 64 word) :: 32 word) = word_of_int (sint x)"
proof -
  have "(ucast (word_of_int (sint x) :: 64 word) :: 32 word) = word_of_int (sint x)"
    by (rule ucast_down_wi) (simp add: is_down)
  then show ?thesis by (simp only: word_sint_self)
qed

lemma sint_ucast_64_32: "smallint_range (sint x) \<Longrightarrow> sint (ucast (x :: 64 word) :: 32 word) = sint x"
  unfolding ucast_64_32 smallint_range_iff by (rule sint_word_of_int_32) simp_all

lemma scast_32_64: "(scast (w :: 32 word) :: 64 word) = word_of_int (sint w)"
  by (rule scast_eq)

lemma smallint_range_signed_take_bit: "signed_take_bit 31 k = k \<longleftrightarrow> smallint_range k"
  by (simp add: signed_take_bit_int_eq_self_iff smallint_range_iff)

lemma smallint_native: "smallint_range a \<Longrightarrow> smallint_range b \<Longrightarrow>
  native_range (a + b) \<and> native_range (a - b) \<and> native_range (a * b)"
proof -
  assume a: "smallint_range a" and b: "smallint_range b"
  then have "\<bar>a\<bar> \<le> 2147483648" "\<bar>b\<bar> \<le> 2147483648"
    unfolding smallint_range_iff by arith+
  then have "\<bar>a\<bar> * \<bar>b\<bar> \<le> 2147483648 * 2147483648"
    by (intro mult_mono) simp_all
  then have "\<bar>a * b\<bar> \<le> 4611686018427387904"
    by (simp add: abs_mult)
  with a b show ?thesis
    unfolding smallint_range_iff native_range_iff by arith
qed

subsection \<open>The encoded word\<close>

lemma boxed_eq: "boxed n = word_of_int (4 * n + 1)"
  by (simp add: boxed_def box_int_def)

lemma sint_boxed: "small_range n \<Longrightarrow> sint (boxed n) = 4 * n + 1"
  unfolding boxed_eq small_range_iff
  by (rule sint_word_of_int_64) simp_all

lemma boxed_inject:
  assumes "small_range m" "small_range n" "boxed m = boxed n"
  shows "m = n"
proof -
  have "sint (boxed m) = sint (boxed n)"
    using assms(3) by (rule arg_cong)
  then have "4 * m + 1 = 4 * n + 1"
    by (simp only: sint_boxed [OF assms(1)] sint_boxed [OF assms(2)])
  then show ?thesis by arith
qed

lemma and_3_take_bit: "(w :: 64 word) AND 3 = take_bit 2 w"
  by (simp add: take_bit_eq_mask mask_eq_exp_minus_1)

lemma and_1_odd: "(w :: 64 word) AND 1 = of_bool (odd w)"
  by (simp add: and_one_eq mod_2_eq_odd)

lemma box_int_bits: "box_int i = push_bit 2 i OR 1"
proof -
  have "push_bit 2 i + 1 = push_bit 2 i OR 1"
    by (rule disjunctive_add) (simp add: bit_simps)
  then show ?thesis
    by (simp add: box_int_def push_bit_eq_mult mult.commute)
qed

lemma is_smallint_box_int: "is_smallint (box_int i)"
  by (simp add: is_smallint_def is_int_fast_def box_int_def and_1_odd)

lemma is_int_box_int: "is_int (box_int i)"
  unfolding is_int_def box_int_bits and_3_take_bit
  by (rule bit_eqI) (auto simp add: bit_simps)

lemma box_int_xor_1: "box_int i XOR 1 = 4 * i"
proof -
  have "box_int i XOR 1 = push_bit 2 i"
    unfolding box_int_bits
    by (rule bit_eqI) (auto simp add: bit_simps)
  then show ?thesis by (simp add: push_bit_eq_mult mult.commute)
qed

lemma is_smallint_boxed: "is_smallint (boxed n)"
  by (simp add: boxed_def is_smallint_box_int)

lemma are_smallints_iff: "are_smallints x y \<longleftrightarrow> is_smallint x \<and> is_smallint y"
  by (simp add: are_smallints_def is_smallint_def is_int_fast_def and_1_odd even_and_iff)

lemma box_int_0: "box_int 0 = boxed 0"
  by (simp add: boxed_def)

lemma box_int_1: "box_int 1 = boxed 1"
  by (simp add: boxed_def)

lemma box_int_m1: "box_int (- 1) = boxed (- 1)"
  by (simp add: boxed_def)

lemma is_bigint_iff: "is_bigint x \<longleftrightarrow> \<not> is_smallint x"
  by (simp add: is_bigint_def is_smallint_def is_ptr_fast_def is_int_fast_def)

lemma is_int_is_smallint: "is_int x \<Longrightarrow> is_smallint x"
proof -
  assume "is_int x"
  then have a: "x AND 3 = 1" by (simp add: is_int_def)
  have "x AND 1 = (x AND 3) AND 1" by (simp add: and.assoc)
  also have "\<dots> = 1" by (simp only: a) simp
  finally show ?thesis by (simp add: is_smallint_def is_int_fast_def)
qed

lemma is_ptr_is_bigint: "is_ptr x \<Longrightarrow> is_bigint x"
proof -
  assume "is_ptr x"
  then have a: "x AND 3 = 0" by (simp add: is_ptr_def)
  have "x AND 1 = (x AND 3) AND 1" by (simp add: and.assoc)
  also have "\<dots> = 0" by (simp only: a) simp
  finally show ?thesis by (simp add: is_bigint_def is_ptr_fast_def)
qed

lemma is_integer_big: "is_integer h x \<Longrightarrow> is_bigint x \<Longrightarrow> 0 < h x"
  using is_int_is_smallint [of x] by (auto simp add: is_integer_def is_bigint_iff)

lemma is_integer_tag: "is_integer h x \<Longrightarrow> is_ptr x \<or> is_int x"
  by (auto simp add: is_integer_def)

lemma boxed_xor_1: "boxed n XOR 1 = word_of_int (4 * n)"
  by (simp add: boxed_def box_int_xor_1)

lemma sint_boxed_xor_1: "small_range n \<Longrightarrow> sint (boxed n XOR 1) = 4 * n"
  unfolding boxed_xor_1 small_range_iff by (rule sint_word_of_int_64) simp_all

lemma sint_sar_boxed: "small_range n \<Longrightarrow> sint (sar (boxed n) 1) = 2 * n"
  by (simp add: sar_def sint_signed_drop_bit_eq drop_bit_int_def sint_boxed)

lemma small_smallint:
  "small_range n \<Longrightarrow> smallint_range (4 * n + 1)"
  "small_range n \<Longrightarrow> smallint_range (4 * n)"
  "small_range n \<Longrightarrow> smallint_range (2 * n)"
  by (simp_all add: small_range_iff smallint_range_iff)

lemma smallint_small:
  "smallint_range (4 * k + 1) \<longleftrightarrow> small_range k"
  "smallint_range (4 * k + 2) \<longleftrightarrow> small_range k"
  "smallint_range (4 * k) \<longleftrightarrow> small_range k"
  by (simp_all add: small_range_iff smallint_range_iff) arith+

lemma or_1_boxed: "(word_of_int (4 * k) :: 64 word) OR 1 = boxed k"
proof -
  have "boxed k = push_bit 2 (word_of_int k) OR 1"
    by (simp only: boxed_def box_int_bits)
  then show ?thesis by (simp add: push_bit_eq_mult mult.commute)
qed

lemma is_integer_boxed:
  assumes "small_range n"
  shows "is_integer h (boxed n)"
proof -
  have "sint (unbox_int (boxed n)) = (4 * n + 1) div 4"
    by (simp add: unbox_int_def sar_def sint_signed_drop_bit_eq drop_bit_int_def sint_boxed [OF assms])
  also have "\<dots> = n" by arith
  finally have "small_range (sint (unbox_int (boxed n)))"
    using assms by simp
  then have "SMALLINT_MIN \<le>s unbox_int (boxed n) \<and> unbox_int (boxed n) \<le>s SMALLINT_MAX"
    by (simp only: in_small_range_iff)
  then show ?thesis
    by (simp add: is_integer_def boxed_def is_int_box_int)
qed

text \<open>
  Every valid integer value is the encoding of a number within the small bounds or an
  aligned pointer to a live bigint block.
\<close>

lemma take_bit_2_sint: "take_bit 2 (sint (x :: 64 word)) = uint (take_bit 2 x)"
proof -
  have "take_bit 2 (sint x) = take_bit 2 (signed_take_bit 63 (uint x))"
    by (simp add: sint_uint)
  also have "\<dots> = take_bit 2 (uint x)"
    by (rule take_bit_signed_take_bit) simp
  finally show ?thesis by (simp add: unsigned_take_bit_eq)
qed

lemma is_int_mod4: "is_int x \<Longrightarrow> sint x mod 4 = 1"
proof -
  assume "is_int x"
  then have "take_bit 2 x = 1" by (simp add: is_int_def and_3_take_bit)
  then have "take_bit 2 (sint x) = 1" by (simp add: take_bit_2_sint)
  then show ?thesis by (simp add: take_bit_eq_mod)
qed

lemma small_integer_boxed:
  assumes "is_int x" "SMALLINT_MIN \<le>s unbox_int x" "unbox_int x \<le>s SMALLINT_MAX"
  shows "small_range (sint x div 4) \<and> x = boxed (sint x div 4)"
proof -
  have u: "sint (unbox_int x) = sint x div 4"
    by (simp add: unbox_int_def sar_def sint_signed_drop_bit_eq drop_bit_int_def)
  have r: "small_range (sint x div 4)"
    using assms(2,3) in_small_range_iff [of "unbox_int x"] unfolding u by blast
  have "4 * (sint x div 4) + 1 = sint x"
    using is_int_mod4 [OF assms(1)] by arith
  then have "boxed (sint x div 4) = word_of_int (sint x)"
    by (simp only: boxed_eq)
  with r show ?thesis by simp
qed

lemma is_integer_cases:
  assumes "is_integer h x"
  shows "(\<exists>m. small_range m \<and> x = boxed m) \<or> (is_ptr x \<and> 0 < h x)"
proof -
  from assms have "(is_int x \<and> SMALLINT_MIN \<le>s unbox_int x \<and> unbox_int x \<le>s SMALLINT_MAX)
      \<or> (is_ptr x \<and> 0 < h x)"
    by (simp only: is_integer_def)
  then show ?thesis
  proof
    assume a: "is_int x \<and> SMALLINT_MIN \<le>s unbox_int x \<and> unbox_int x \<le>s SMALLINT_MAX"
    with small_integer_boxed [of x]
    have "small_range (sint x div 4) \<and> x = boxed (sint x div 4)" by simp
    then show ?thesis by blast
  next
    assume "is_ptr x \<and> 0 < h x"
    then show ?thesis by simp
  qed
qed

section \<open>The overflow checks\<close>

text \<open>
  The generic test \<^verbatim>\<open>s + 1 > 1\<close> on the unsigned \<^verbatim>\<open>s = sar(z, SMALLINT_BITS - 1)\<close> holds
  exactly when \<open>z\<close> is outside the signed 32-bit range.
\<close>

lemma word_gt_1_iff: "1 < (v :: 64 word) \<longleftrightarrow> v \<noteq> 0 \<and> v \<noteq> 1"
proof -
  have "1 < v \<longleftrightarrow> \<not> v \<le> 1" by (simp add: not_le)
  also have "v \<le> 1 \<longleftrightarrow> v < 1 \<or> v = 1" by (rule le_less)
  also have "v < 1 \<longleftrightarrow> v = 0" by (rule word_less_1)
  finally show ?thesis by blast
qed

lemma div_2_31_iff: "smallint_range k \<longleftrightarrow> k div 2147483648 = 0 \<or> k div 2147483648 = - 1"
  unfolding smallint_range_iff by arith

lemma top_bits_test: "(1 < (sar z (SMALLINT_BITS - 1)) + 1) \<longleftrightarrow> \<not> smallint_range (sint z)"
proof -
  define s where "s = sar z (SMALLINT_BITS - 1)"
  have ss: "sint s = sint z div 2147483648"
    by (simp add: s_def sar_def SMALLINT_BITS_def sint_signed_drop_bit_eq drop_bit_int_def)
  have "s = 0 \<longleftrightarrow> sint s = sint (0 :: 64 word)" "s = - 1 \<longleftrightarrow> sint s = sint (- 1 :: 64 word)"
    by (simp_all only: sint_eq_iff)
  then have z: "s = 0 \<longleftrightarrow> sint s = 0" "s = - 1 \<longleftrightarrow> sint s = - 1"
    by simp_all
  have "1 < s + 1 \<longleftrightarrow> s + 1 \<noteq> 0 \<and> s + 1 \<noteq> 1"
    by (rule word_gt_1_iff)
  also have "s + 1 = 0 \<longleftrightarrow> s = - 1"
    by (simp add: add_eq_0_iff2)
  also have "s + 1 = 1 \<longleftrightarrow> s = 0"
    by simp
  finally show ?thesis
    unfolding s_def [symmetric] z ss div_2_31_iff by blast
qed

lemma add_ovf_generic:
  assumes "native_range (sint x + sint y)"
  shows "smallint_add_ovf_generic x y = (\<not> smallint_range (sint x + sint y), word_of_int (sint x + sint y))"
proof -
  have "x + y = word_of_int (sint (x + y))" by simp
  then have "x + y = word_of_int (sint x + sint y)"
    by (simp only: sint_add_native [OF assms])
  moreover have "(1 < sar (x + y) (SMALLINT_BITS - 1) + 1) \<longleftrightarrow> \<not> smallint_range (sint x + sint y)"
    by (simp only: top_bits_test sint_add_native [OF assms])
  ultimately show ?thesis
    by (simp only: smallint_add_ovf_generic_def Let_def)
qed

lemma sub_ovf_generic:
  assumes "native_range (sint x - sint y)"
  shows "smallint_sub_ovf_generic x y = (\<not> smallint_range (sint x - sint y), word_of_int (sint x - sint y))"
proof -
  have "x - y = word_of_int (sint (x - y))" by simp
  then have "x - y = word_of_int (sint x - sint y)"
    by (simp only: sint_sub_native [OF assms])
  moreover have "(1 < sar (x - y) (SMALLINT_BITS - 1) + 1) \<longleftrightarrow> \<not> smallint_range (sint x - sint y)"
    by (simp only: top_bits_test sint_sub_native [OF assms])
  ultimately show ?thesis
    by (simp only: smallint_sub_ovf_generic_def Let_def)
qed

lemma mul_ovf_generic:
  assumes "native_range (sint x * sint y)"
  shows "smallint_mul_ovf_generic x y = (\<not> smallint_range (sint x * sint y), word_of_int (sint x * sint y))"
proof -
  have "x * y = word_of_int (sint (x * y))" by simp
  then have "x * y = word_of_int (sint x * sint y)"
    by (simp only: sint_mul_native [OF assms])
  moreover have "(1 < sar (x * y) (SMALLINT_BITS - 1) + 1) \<longleftrightarrow> \<not> smallint_range (sint x * sint y)"
    by (simp only: top_bits_test sint_mul_native [OF assms])
  ultimately show ?thesis
    by (simp only: smallint_mul_ovf_generic_def Let_def)
qed

lemma add_ovf_builtin:
  assumes "smallint_range (sint x)" "smallint_range (sint y)"
  shows "smallint_add_ovf_builtin x y =
    (\<not> smallint_range (sint x + sint y), word_of_int (signed_take_bit 31 (sint x + sint y)))"
proof -
  have s: "sint (ucast x + ucast y :: 32 word) = signed_take_bit 31 (sint x + sint y)"
    by (simp add: sint_word_add sint_ucast_64_32 [OF assms(1)] sint_ucast_64_32 [OF assms(2)])
  show ?thesis
    by (simp only: smallint_add_ovf_builtin_def Let_def scast_32_64 s
        sint_ucast_64_32 [OF assms(1)] sint_ucast_64_32 [OF assms(2)])
      (simp add: smallint_range_signed_take_bit eq_commute [of "sint x + sint y"])
qed

lemma sub_ovf_builtin:
  assumes "smallint_range (sint x)" "smallint_range (sint y)"
  shows "smallint_sub_ovf_builtin x y =
    (\<not> smallint_range (sint x - sint y), word_of_int (signed_take_bit 31 (sint x - sint y)))"
proof -
  have s: "sint (ucast x - ucast y :: 32 word) = signed_take_bit 31 (sint x - sint y)"
    by (simp add: sint_word_diff sint_ucast_64_32 [OF assms(1)] sint_ucast_64_32 [OF assms(2)])
  show ?thesis
    by (simp only: smallint_sub_ovf_builtin_def Let_def scast_32_64 s
        sint_ucast_64_32 [OF assms(1)] sint_ucast_64_32 [OF assms(2)])
      (simp add: smallint_range_signed_take_bit eq_commute [of "sint x - sint y"])
qed

lemma mul_ovf_builtin:
  assumes "smallint_range (sint x)" "smallint_range (sint y)"
  shows "smallint_mul_ovf_builtin x y =
    (\<not> smallint_range (sint x * sint y), word_of_int (signed_take_bit 31 (sint x * sint y)))"
proof -
  have s: "sint (ucast x * ucast y :: 32 word) = signed_take_bit 31 (sint x * sint y)"
    by (simp add: sint_word_mult sint_ucast_64_32 [OF assms(1)] sint_ucast_64_32 [OF assms(2)])
  show ?thesis
    by (simp only: smallint_mul_ovf_builtin_def Let_def scast_32_64 s
        sint_ucast_64_32 [OF assms(1)] sint_ucast_64_32 [OF assms(2)])
      (simp add: smallint_range_signed_take_bit eq_commute [of "sint x * sint y"])
qed

text \<open>
  On operands within the range of \<^verbatim>\<open>smallint_t\<close> the builtin and the generic check agree:
  both report overflow exactly when the exact result leaves that range, and both store
  the exact result otherwise.
\<close>

lemma add_ovf_spec:
  assumes "smallint_range (sint x)" "smallint_range (sint y)"
  shows "fst (smallint_add_ovf impl x y) = (\<not> smallint_range (sint x + sint y))"
    and "smallint_range (sint x + sint y) \<Longrightarrow> snd (smallint_add_ovf impl x y) = word_of_int (sint x + sint y)"
  using smallint_native [OF assms]
  by (cases impl; simp add: smallint_add_ovf_def add_ovf_builtin [OF assms] add_ovf_generic
      smallint_range_signed_take_bit [THEN iffD2])+

lemma sub_ovf_spec:
  assumes "smallint_range (sint x)" "smallint_range (sint y)"
  shows "fst (smallint_sub_ovf impl x y) = (\<not> smallint_range (sint x - sint y))"
    and "smallint_range (sint x - sint y) \<Longrightarrow> snd (smallint_sub_ovf impl x y) = word_of_int (sint x - sint y)"
  using smallint_native [OF assms]
  by (cases impl; simp add: smallint_sub_ovf_def sub_ovf_builtin [OF assms] sub_ovf_generic
      smallint_range_signed_take_bit [THEN iffD2])+

lemma mul_ovf_spec:
  assumes "smallint_range (sint x)" "smallint_range (sint y)"
  shows "fst (smallint_mul_ovf impl x y) = (\<not> smallint_range (sint x * sint y))"
    and "smallint_range (sint x * sint y) \<Longrightarrow> snd (smallint_mul_ovf impl x y) = word_of_int (sint x * sint y)"
  using smallint_native [OF assms]
  by (cases impl; simp add: smallint_mul_ovf_def mul_ovf_builtin [OF assms] mul_ovf_generic
      smallint_range_signed_take_bit [THEN iffD2])+

section \<open>The fast paths on two small integers\<close>

lemma add_small_exact:
  assumes m: "small_range m" and n: "small_range n"
  shows "integer_add_small impl g (boxed m) (boxed n) ctx =
    (if small_range (m + n) then Inr (boxed (m + n), ctx) else g (boxed m) (boxed n) ctx)"
proof -
  have sx: "sint (boxed m) = 4 * m + 1" and sy: "sint (boxed n XOR 1) = 4 * n"
    by (simp_all only: sint_boxed [OF m] sint_boxed_xor_1 [OF n])
  have rx: "smallint_range (sint (boxed m))" and ry: "smallint_range (sint (boxed n XOR 1))"
    by (simp_all only: sx sy small_smallint [OF m] small_smallint [OF n])
  have sum: "sint (boxed m) + sint (boxed n XOR 1) = 4 * (m + n) + 1"
    by (simp only: sx sy) arith
  note spec = add_ovf_spec [OF rx ry, of impl, unfolded sum smallint_small]
  obtain ovf i where p: "smallint_add_ovf impl (boxed m) (boxed n XOR 1) = (ovf, i)"
    by (cases "smallint_add_ovf impl (boxed m) (boxed n XOR 1)")
  from spec p have "ovf = (\<not> small_range (m + n))" "small_range (m + n) \<Longrightarrow> i = boxed (m + n)"
    by (simp_all add: boxed_eq)
  then show ?thesis
    by (simp add: integer_add_small_def p)
qed

lemma sub_small_exact:
  assumes m: "small_range m" and n: "small_range n"
  shows "integer_sub_small impl g (boxed m) (boxed n) ctx =
    (if small_range (m - n) then Inr (boxed (m - n), ctx) else g (boxed m) (boxed n) ctx)"
proof -
  have sx: "sint (boxed m) = 4 * m + 1" and sy: "sint (boxed n XOR 1) = 4 * n"
    by (simp_all only: sint_boxed [OF m] sint_boxed_xor_1 [OF n])
  have rx: "smallint_range (sint (boxed m))" and ry: "smallint_range (sint (boxed n XOR 1))"
    by (simp_all only: sx sy small_smallint [OF m] small_smallint [OF n])
  have sum: "sint (boxed m) - sint (boxed n XOR 1) = 4 * (m - n) + 1"
    by (simp only: sx sy) arith
  note spec = sub_ovf_spec [OF rx ry, of impl, unfolded sum smallint_small]
  obtain ovf i where p: "smallint_sub_ovf impl (boxed m) (boxed n XOR 1) = (ovf, i)"
    by (cases "smallint_sub_ovf impl (boxed m) (boxed n XOR 1)")
  from spec p have "ovf = (\<not> small_range (m - n))" "small_range (m - n) \<Longrightarrow> i = boxed (m - n)"
    by (simp_all add: boxed_eq)
  then show ?thesis
    by (simp add: integer_sub_small_def p)
qed

lemma mul_small_exact:
  assumes m: "small_range m" and n: "small_range n"
  shows "integer_mul_small impl g (boxed m) (boxed n) ctx =
    (if small_range (m * n) then Inr (boxed (m * n), ctx) else g (boxed m) (boxed n) ctx)"
proof -
  have sx: "sint (sar (boxed m) 1) = 2 * m" and sy: "sint (sar (boxed n) 1) = 2 * n"
    by (simp_all only: sint_sar_boxed [OF m] sint_sar_boxed [OF n])
  have rx: "smallint_range (sint (sar (boxed m) 1))" and ry: "smallint_range (sint (sar (boxed n) 1))"
    by (simp_all only: sx sy small_smallint [OF m] small_smallint [OF n])
  have prod: "sint (sar (boxed m) 1) * sint (sar (boxed n) 1) = 4 * (m * n)"
    unfolding sx sy by simp
  note spec = mul_ovf_spec [OF rx ry, of impl, unfolded prod smallint_small]
  obtain ovf k where p: "smallint_mul_ovf impl (sar (boxed m) 1) (sar (boxed n) 1) = (ovf, k)"
    by (cases "smallint_mul_ovf impl (sar (boxed m) 1) (sar (boxed n) 1)")
  from spec p have o: "ovf = (\<not> small_range (m * n))"
    and k: "small_range (m * n) \<Longrightarrow> k = word_of_int (4 * (m * n))"
    by simp_all
  show ?thesis
  proof (cases "small_range (m * n)")
    case True
    then have "k OR 1 = boxed (m * n)"
      by (simp only: k or_1_boxed)
    with True o show ?thesis
      unfolding integer_mul_small_def Let_def p by simp
  next
    case False
    with o show ?thesis
      unfolding integer_mul_small_def Let_def p by simp
  qed
qed

lemma neg_small:
  assumes n: "small_range n"
  shows "integer_neg impl g ng (boxed n) ctx =
    (if n = sint SMALLINT_MIN then g (box_int 0) (boxed n) ctx else Inr (boxed (- n), ctx))"
proof -
  have z: "small_range 0" by (simp add: small_range_iff)
  have r: "small_range (- n) \<longleftrightarrow> n \<noteq> sint SMALLINT_MIN"
    using n unfolding small_range_iff SMALLINT_MIN_value by simp arith
  have e: "integer_sub_small impl g (boxed 0) (boxed n) ctx =
      (if small_range (- n) then Inr (boxed (- n), ctx) else g (boxed 0) (boxed n) ctx)"
    using sub_small_exact [OF z n, of impl g ctx] by simp
  show ?thesis
    by (simp add: integer_neg_def is_smallint_boxed box_int_0 e r)
qed

lemma cmp_small:
  assumes m: "small_range m" and n: "small_range n"
  shows "integer_t_less Signed (boxed m) (boxed n) \<longleftrightarrow> m < n"
    and "integer_t_less_eq Signed (boxed m) (boxed n) \<longleftrightarrow> m \<le> n"
    and "boxed m = boxed n \<longleftrightarrow> m = n"
  using boxed_inject [OF m n]
  by (auto simp add: integer_t_less_def integer_t_less_eq_def word_sless_alt word_sle_eq
      sint_boxed [OF m] sint_boxed [OF n])

section \<open>The optimised addition\<close>

text \<open>
  Adding two encoded small integers leaves \<open>10\<close> in the low two bits; a pointer operand
  leaves bit 1 clear, whatever the overflow check reports.
\<close>

lemma two_as_push_bit: "(2 :: 64 word) = push_bit 1 1"
  by simp

lemma three_as_mask: "(3 :: 64 word) = mask 2"
  by (simp add: mask_eq_exp_minus_1)

lemma four_times_plus_2_bits: "(4 * w + 2 :: 64 word) = push_bit 2 w OR push_bit 1 1"
proof -
  have "push_bit 2 w + push_bit 1 1 = push_bit 2 w OR push_bit 1 1"
    by (rule disjunctive_add) (auto simp add: bit_simps)
  then show ?thesis
    by (simp add: push_bit_eq_mult mult.commute)
qed

lemma four_times_plus_2_and_2: "(4 * w + 2 :: 64 word) AND 2 \<noteq> 0"
proof -
  have "(push_bit 2 w OR push_bit 1 1) AND push_bit 1 1 = push_bit 1 (1 :: 64 word)"
    by (rule bit_eqI) (auto simp add: bit_simps)
  then have "(4 * w + 2 :: 64 word) AND 2 = 2"
    by (simp only: four_times_plus_2_bits flip: two_as_push_bit)
  then show ?thesis by simp
qed

lemma four_times_plus_2_xor_3: "(4 * w + 2 :: 64 word) XOR 3 = 4 * w + 1"
proof -
  have "(push_bit 2 w OR push_bit 1 1) XOR mask 2 = push_bit 2 w OR (1 :: 64 word)"
    by (rule bit_eqI) (auto simp add: bit_simps)
  then have "(4 * w + 2 :: 64 word) XOR 3 = push_bit 2 w OR 1"
    by (simp only: four_times_plus_2_bits three_as_mask)
  then show ?thesis
    by (simp only: box_int_bits [symmetric] box_int_def)
qed

lemma and_2_bit: "(w :: 64 word) AND 2 = 0 \<longleftrightarrow> \<not> bit w 1"
  using and_exp_eq_0_iff_not_bit [of w 1] by simp

lemma ptr_sum_bit1:
  assumes "is_ptr x" "is_ptr y \<or> is_int y"
  shows "\<not> bit (x + y) 1"
proof -
  have "uint (take_bit 2 x) = 0"
    using assms(1) by (simp add: is_ptr_def and_3_take_bit)
  then have x: "take_bit 2 (uint x) = 0"
    by (simp only: unsigned_take_bit_eq)
  from assms(2) have "uint (take_bit 2 y) = 0 \<or> uint (take_bit 2 y) = 1"
    by (auto simp add: is_ptr_def is_int_def and_3_take_bit)
  then have y: "take_bit 2 (uint y) = 0 \<or> take_bit 2 (uint y) = 1"
    by (simp only: unsigned_take_bit_eq)
  have "take_bit 2 (uint x + uint y) = take_bit 2 (take_bit 2 (uint x) + take_bit 2 (uint y))"
    by (rule take_bit_add [symmetric])
  with x y have t: "take_bit 2 (uint x + uint y) = 0 \<or> take_bit 2 (uint x + uint y) = 1"
    by auto
  have "bit (x + y) 1 \<longleftrightarrow> bit (uint (x + y)) 1"
    by (simp add: bit_uint_iff)
  also have "\<dots> \<longleftrightarrow> bit (take_bit 64 (uint x + uint y)) 1"
    by (simp add: uint_word_arith_bintrs)
  also have "\<dots> \<longleftrightarrow> bit (take_bit 2 (uint x + uint y)) 1"
    by (simp add: bit_take_bit_iff)
  also have "\<dots> \<longleftrightarrow> False"
    using t by auto
  finally show ?thesis by simp
qed

lemma ucast_add_64_32: "(ucast (x :: 64 word) + ucast y :: 32 word) = ucast (x + y)"
proof -
  have "take_bit 32 (signed_take_bit 63 (sint x + sint y)) = take_bit 32 (sint x + sint y)"
    by (rule take_bit_signed_take_bit) simp
  then have "(word_of_int (signed_take_bit 63 (sint x + sint y)) :: 32 word) = word_of_int (sint x + sint y)"
    by (simp only: word_of_int_eq_iff) simp
  then have "(ucast (x + y) :: 32 word) = word_of_int (sint x + sint y)"
    by (simp only: ucast_64_32 sint_word_add) simp
  then show ?thesis
    by (simp only: ucast_64_32) simp
qed

lemma builtin_sum_bit1: "bit (snd (smallint_add_ovf_builtin x y)) 1 \<longleftrightarrow> bit (x + y) 1"
  by (simp add: smallint_add_ovf_builtin_def Let_def ucast_add_64_32 bit_simps)

lemma generic_sum_bit1: "bit (snd (smallint_add_ovf_generic x y)) 1 \<longleftrightarrow> bit (x + y) 1"
  by (simp add: smallint_add_ovf_generic_def Let_def)

lemma sum_bit1: "bit (snd (smallint_add_ovf impl x y)) 1 \<longleftrightarrow> bit (x + y) 1"
  by (cases impl) (simp_all only: smallint_add_ovf_def ovf_impl.case builtin_sum_bit1 generic_sum_bit1)

lemma add_both_small:
  assumes m: "small_range m" and n: "small_range n"
  shows "integer_add impl g (boxed m) (boxed n) ctx =
    (if small_range (m + n) then Inr (boxed (m + n), ctx) else g (boxed m) (boxed n) ctx)"
proof -
  have sx: "sint (boxed m) = 4 * m + 1" and sy: "sint (boxed n) = 4 * n + 1"
    by (simp_all only: sint_boxed [OF m] sint_boxed [OF n])
  have rx: "smallint_range (sint (boxed m))" and ry: "smallint_range (sint (boxed n))"
    by (simp_all only: sx sy small_smallint [OF m] small_smallint [OF n])
  have sum: "sint (boxed m) + sint (boxed n) = 4 * (m + n) + 2"
    by (simp only: sx sy) arith
  note spec = add_ovf_spec [OF rx ry, of impl, unfolded sum smallint_small]
  obtain ovf i where p: "smallint_add_ovf impl (boxed m) (boxed n) = (ovf, i)"
    by (cases "smallint_add_ovf impl (boxed m) (boxed n)")
  from spec p have o: "ovf = (\<not> small_range (m + n))"
    and i: "small_range (m + n) \<Longrightarrow> i = 4 * word_of_int (m + n) + 2"
    by simp_all
  show ?thesis
  proof (cases "small_range (m + n)")
    case True
    have "i AND 2 \<noteq> 0" "i XOR 3 = boxed (m + n)"
      by (simp_all only: i [OF True] four_times_plus_2_and_2 four_times_plus_2_xor_3 boxed_def box_int_def not_False_eq_True)
    with True o show ?thesis
      unfolding integer_add_def p by simp
  next
    case False
    with o show ?thesis
      unfolding integer_add_def p by simp
  qed
qed

lemma add_not_small:
  assumes x: "is_integer h x" and y: "is_integer h y" and ns: "\<not> are_smallints x y"
  shows "integer_add impl g x y ctx = g x y ctx"
proof -
  have "is_ptr x \<or> is_ptr y"
    using is_integer_tag [OF x] is_integer_tag [OF y] is_int_is_smallint [of x] is_int_is_smallint [of y] ns
    by (auto simp add: are_smallints_iff)
  then have "\<not> bit (x + y) 1"
  proof
    assume "is_ptr x"
    then show ?thesis using is_integer_tag [OF y] by (rule ptr_sum_bit1)
  next
    assume "is_ptr y"
    then have "\<not> bit (y + x) 1" using is_integer_tag [OF x] by (rule ptr_sum_bit1)
    then show ?thesis by (simp add: add.commute [of x y])
  qed
  then have "snd (smallint_add_ovf impl x y) AND 2 = 0"
    by (simp only: and_2_bit sum_bit1 not_False_eq_True)
  then show ?thesis
    by (simp add: integer_add_def split_beta)
qed

section \<open>Reference counts\<close>

lemma boxed_dup_held: "held h x \<Longrightarrow> boxed_dup x h = Inr (retained x h)"
  by (auto simp add: held_def boxed_dup_def retained_def is_bigint_def)

lemma boxed_drop_held: "held h x \<Longrightarrow> boxed_drop x h = Inr (released x h)"
  by (auto simp add: held_def boxed_drop_def released_def is_bigint_def)

lemma held_retained: "held h y \<Longrightarrow> held (retained x h) y"
  by (simp add: held_def retained_def)

lemma held_released_retained: "held h y \<Longrightarrow> held (released x (retained y (retained x h))) y"
  by (simp add: held_def retained_def released_def)

lemma released_retained_twice: "released y (released x (retained y (retained x h))) = h"
  by (rule ext) (simp add: retained_def released_def)

lemma cmp_contract_consumes:
  assumes "held h x" "held h y"
  shows "cmp_generic_contract v x y (retained y (retained x h)) =
    Inr (v (retained y (retained x h)) x y, h)"
proof -
  have 1: "held (retained y (retained x h)) x"
    using assms(1) by (simp add: held_retained)
  have 2: "held (released x (retained y (retained x h))) y"
    using assms(2) by (rule held_released_retained)
  show ?thesis
    by (simp add: cmp_generic_contract_def boxed_drop_held [OF 1] boxed_drop_held [OF 2] released_retained_twice)
qed

section \<open>Parity and the order of encoded words\<close>

text \<open>
  The mask \<^verbatim>\<open>0x08\<close> of \<^verbatim>\<open>integer_is_even\<close> selects bit 3 of the encoded word, which is bit 1 of
  the number: the parity of \<open>n\<close> is bit 2 of \<open>4*n + 1\<close>.
\<close>

lemma and_8_bit: "(w :: 64 word) AND 8 = 0 \<longleftrightarrow> \<not> bit w 3"
  using and_exp_eq_0_iff_not_bit [of w 3] by simp

lemma bit3_boxed: "bit (boxed n) 3 \<longleftrightarrow> odd (n div 2)"
proof -
  have "bit (boxed n) 3 \<longleftrightarrow> bit (word_of_int n :: 64 word) 1"
    by (simp add: boxed_def box_int_bits bit_simps)
  also have "\<dots> \<longleftrightarrow> bit n 1"
    by (simp add: bit_word_of_int_iff)
  also have "\<dots> \<longleftrightarrow> odd (n div 2)"
    by (simp add: bit_iff_odd_drop_bit drop_bit_eq_div)
  finally show ?thesis .
qed

lemma integer_is_even_tests_bit_1:
  "integer_is_even g (boxed n) ctx = Inr (even (n div 2), ctx)"
  "integer_is_odd g (boxed n) ctx = Inr (odd (n div 2), ctx)"
  by (simp_all add: integer_is_even_def integer_is_odd_def is_smallint_boxed and_8_bit bit3_boxed)

text \<open>
  Read as unsigned words, the encodings of the negative small integers lie above those
  of the non-negative ones: the direct comparison orders two small integers of the same
  sign as the numbers are ordered, and puts every negative one above every non-negative
  one.
\<close>

lemma uint_boxed:
  assumes "small_range n"
  shows "uint (boxed n) = (if n < 0 then 18446744073709551616 + (4 * n + 1) else 4 * n + 1)"
proof -
  have u: "uint (boxed n) = (4 * n + 1) mod 18446744073709551616"
    unfolding boxed_eq by (simp only: uint_word_of_int) simp
  show ?thesis
  proof (cases "n < 0")
    case True
    have "(4 * n + 1) mod 18446744073709551616 = (4 * n + 1 + 18446744073709551616) mod 18446744073709551616"
      by (rule mod_add_self2 [symmetric])
    also have "\<dots> = 4 * n + 1 + 18446744073709551616"
      using assms True unfolding small_range_iff by (intro mod_pos_pos_trivial) simp_all
    finally show ?thesis using True u by simp
  next
    case False
    have "(4 * n + 1) mod 18446744073709551616 = 4 * n + 1"
      using assms False unfolding small_range_iff by (intro mod_pos_pos_trivial) simp_all
    then show ?thesis using False u by simp
  qed
qed

lemma unsigned_order_of_boxed:
  assumes m: "small_range m" and n: "small_range n"
  shows "integer_t_less Unsigned (boxed m) (boxed n) \<longleftrightarrow>
           (if (m < 0) = (n < 0) then m < n else n < 0)"
    and "integer_t_less_eq Unsigned (boxed m) (boxed n) \<longleftrightarrow>
           (if (m < 0) = (n < 0) then m \<le> n else n < 0)"
  using m n unfolding small_range_iff
  by (simp_all add: integer_t_less_def integer_t_less_eq_def word_less_def word_le_def
      uint_boxed [OF m] uint_boxed [OF n]) arith+

text \<open>
  Were \<^verbatim>\<open>integer_t\<close> a signed type, the direct comparisons would agree with the order of
  the numbers.
\<close>

lemma signed_order_of_boxed:
  assumes "small_range m" "small_range n"
  shows "integer_cmp Signed cmp_generic (boxed m) (boxed n) ctx =
           Inr ((if m = n then 0 else if m > n then 1 else - 1), ctx)
       \<and> integer_lt Signed cmp_generic (boxed m) (boxed n) ctx = Inr (m < n, ctx)
       \<and> integer_lte Signed cmp_generic (boxed m) (boxed n) ctx = Inr (m \<le> n, ctx)
       \<and> integer_gt Signed cmp_generic (boxed m) (boxed n) ctx = Inr (m > n, ctx)
       \<and> integer_gte Signed cmp_generic (boxed m) (boxed n) ctx = Inr (m \<ge> n, ctx)
       \<and> integer_eq Signed cmp_generic (boxed m) (boxed n) ctx = Inr (m = n, ctx)
       \<and> integer_neq Signed cmp_generic (boxed m) (boxed n) ctx = Inr (m \<noteq> n, ctx)"
  by (simp add: integer_cmp_def integer_lt_def integer_lte_def integer_gt_def integer_gte_def
      integer_eq_def integer_neq_def are_smallints_iff is_smallint_boxed
      cmp_small [OF assms] cmp_small [OF assms(2,1)])

section \<open>Concrete heaps for the instances below\<close>

lemma is_integer_4096: "is_integer (\<lambda>a. if a = 4096 then 1 else 0) 4096"
  by (simp add: is_integer_def is_ptr_def)

lemma is_integer_two_blocks:
  "is_integer (\<lambda>a. if a = 4096 \<or> a = 8192 then 1 else 0) 4096"
  "is_integer (\<lambda>a. if a = 4096 \<or> a = 8192 then 1 else 0) 8192"
  "\<not> are_smallints 4096 8192"
  by (simp_all add: is_integer_def is_ptr_def are_smallints_def)

lemma is_integer_4096_twice: "is_integer (\<lambda>a. if a = 4096 then 2 else 0) 4096 \<and> is_bigint 4096"
  by (simp add: is_integer_def is_ptr_def is_bigint_def is_ptr_fast_def)

section \<open>The claims\<close>

text \<open>
  Claim C1: for every dividend and a divisor equal to zero, \<^verbatim>\<open>integer_div\<close>,
  \<^verbatim>\<open>integer_mod\<close> and \<^verbatim>\<open>integer_div_mod\<close> report a fault rather than return a value,
  whether or not both operands are Small. On two Small operands the code does not: for
  the dividend 1 and the divisor 0 the dispatcher takes the fast path, which divides
  \<^verbatim>\<open>sar(5,1) = 2\<close> by \<^verbatim>\<open>sar(1,1) = 0\<close> natively; nothing tests the divisor and no fault is
  reported.
\<close>

theorem integer_div_zero_divisor_fast_path:
  "integer_div shr div_generic (boxed 1) (boxed 0) ctx = Inl Undefined_behaviour
 \<and> integer_mod shr mod_generic (boxed 1) (boxed 0) ctx = Inl Undefined_behaviour
 \<and> integer_div_mod shr div_mod_generic (boxed 1) (boxed 0) ctx = Inl Undefined_behaviour"
  by (simp add: integer_div_def integer_mod_def integer_div_mod_def are_smallints_iff is_smallint_boxed)
    (simp add: integer_div_small_def integer_mod_small_def integer_div_mod_small_def sar_def boxed_eq)

text \<open>
  With a Big dividend the same divisor reaches the generic operation, whose contract is
  to report the failure.
\<close>

lemma integer_div_zero_divisor_generic_path:
  assumes "is_bigint x"
  shows "integer_div shr (div_generic_contract e) x (boxed 0) ctx = Inl Division_by_zero"
    and "integer_mod shr (div_generic_contract e) x (boxed 0) ctx = Inl Division_by_zero"
    and "integer_div_mod shr (div_generic_contract e2) x (boxed 0) ctx = Inl Division_by_zero"
  using assms
  by (simp_all add: integer_div_def integer_mod_def integer_div_mod_def div_generic_contract_def
      are_smallints_iff is_bigint_iff box_int_0)

text \<open>
  Claim C2: for every small-representable \<open>n\<close>, \<^verbatim>\<open>integer_is_even\<close> on \<open>boxed n\<close> returns
  true if and only if \<open>n\<close> is even, and \<^verbatim>\<open>integer_is_odd\<close> the negation. The code tests
  the wrong bit: it calls 1 even and 2 odd. (The two predicates do negate each other.)
\<close>

theorem integer_is_even_wrong_bit:
  "integer_is_even is_even_generic (boxed 1) ctx = Inr (True, ctx)
 \<and> integer_is_odd is_even_generic (boxed 1) ctx = Inr (False, ctx)
 \<and> integer_is_even is_even_generic (boxed 2) ctx = Inr (False, ctx)
 \<and> integer_is_odd is_even_generic (boxed 2) ctx = Inr (True, ctx)"
  by (simp add: integer_is_even_tests_bit_1)

text \<open>
  Claim C3: for all small-representable \<open>m\<close> and \<open>n\<close>, the fast paths
  \<^verbatim>\<open>integer_add_small\<close>, \<^verbatim>\<open>integer_sub_small\<close> and \<^verbatim>\<open>integer_mul_small\<close> on \<open>boxed m\<close> and
  \<open>boxed n\<close> return the encoding of the exact \<open>m + n\<close>, \<open>m - n\<close>, \<open>m * n\<close> whenever that
  result is in the small range, and otherwise call the corresponding generic operation
  on the original operands. This holds for either overflow check and for any generic
  operation.
\<close>

theorem small_fast_paths_exact:
  assumes "small_range m" "small_range n"
  shows "integer_add_small impl add_generic (boxed m) (boxed n) ctx =
           (if small_range (m + n) then Inr (boxed (m + n), ctx)
            else add_generic (boxed m) (boxed n) ctx)
       \<and> integer_sub_small impl sub_generic (boxed m) (boxed n) ctx =
           (if small_range (m - n) then Inr (boxed (m - n), ctx)
            else sub_generic (boxed m) (boxed n) ctx)
       \<and> integer_mul_small impl mul_generic (boxed m) (boxed n) ctx =
           (if small_range (m * n) then Inr (boxed (m * n), ctx)
            else mul_generic (boxed m) (boxed n) ctx)"
  by (simp only: add_small_exact [OF assms] sub_small_exact [OF assms] mul_small_exact [OF assms] simp_thms)

theorem small_fast_paths_exact_witness:
  "small_range 3 \<and> small_range 4
 \<and> integer_add_small Builtin (\<lambda>x y c. Inl Dead_reference) (boxed 3) (boxed 4) (\<lambda>a. 0) = Inr (boxed 7, \<lambda>a. 0)
 \<and> integer_sub_small Builtin (\<lambda>x y c. Inl Dead_reference) (boxed 3) (boxed 4) (\<lambda>a. 0) = Inr (boxed (- 1), \<lambda>a. 0)
 \<and> integer_mul_small Builtin (\<lambda>x y c. Inl Dead_reference) (boxed 3) (boxed 4) (\<lambda>a. 0) = Inr (boxed 12, \<lambda>a. 0)
 \<and> small_range 536870911 \<and> small_range 1
 \<and> integer_add_small Generic (\<lambda>x y c. Inl Dead_reference) (boxed 536870911) (boxed 1) (\<lambda>a. 0) = Inl Dead_reference"
  using small_fast_paths_exact [of 3 4 Builtin "\<lambda>x y c. Inl Dead_reference" "\<lambda>a. 0"
      "\<lambda>x y c. Inl Dead_reference" "\<lambda>x y c. Inl Dead_reference"]
    small_fast_paths_exact [of 536870911 1 Generic "\<lambda>x y c. Inl Dead_reference" "\<lambda>a. 0"
      "\<lambda>x y c. Inl Dead_reference" "\<lambda>x y c. Inl Dead_reference"]
  by (simp add: small_range_iff)

text \<open>
  Claim C4: the optimised \<^verbatim>\<open>integer_add\<close>, which adds the encoded words first and
  inspects bit 1 of the sum, returns for every pair of valid integer values (Small or
  Big) what the uniform dispatch rule returns: \<^verbatim>\<open>integer_add_small\<close> when
  \<^verbatim>\<open>are_smallints\<close> holds and the generic addition otherwise.
\<close>

theorem integer_add_refines_dispatch:
  assumes "is_integer ctx x" "is_integer ctx y"
  shows "integer_add impl add_generic x y ctx = integer_add_dispatch impl add_generic x y ctx"
proof (cases "are_smallints x y")
  case False
  then show ?thesis
    by (simp add: integer_add_dispatch_def add_not_small [OF assms False])
next
  case True
  then have s: "is_smallint x" "is_smallint y"
    by (simp_all add: are_smallints_iff)
  from is_integer_cases [OF assms(1)] s(1) obtain m where m: "small_range m" "x = boxed m"
    using is_ptr_is_bigint [of x] by (auto simp add: is_bigint_iff)
  from is_integer_cases [OF assms(2)] s(2) obtain n where n: "small_range n" "y = boxed n"
    using is_ptr_is_bigint [of y] by (auto simp add: is_bigint_iff)
  show ?thesis
    using True
    by (simp add: integer_add_dispatch_def m(2) n(2) add_both_small [OF m(1) n(1)] add_small_exact [OF m(1) n(1)])
qed

theorem integer_add_refines_dispatch_witness:
  "is_integer (\<lambda>a. if a = 4096 then 1 else 0) (boxed 3)
 \<and> is_integer (\<lambda>a. if a = 4096 then 1 else 0) 4096
 \<and> integer_add Builtin (\<lambda>x y c. Inr (x, c)) (boxed 3) 4096 (\<lambda>a. if a = 4096 then 1 else 0)
   = integer_add_dispatch Builtin (\<lambda>x y c. Inr (x, c)) (boxed 3) 4096 (\<lambda>a. if a = 4096 then 1 else 0)"
proof -
  have 3: "small_range 3" by (simp add: small_range_iff)
  note a = is_integer_boxed [OF 3, of "\<lambda>a. if a = 4096 then 1 else 0"]
  note b = is_integer_4096
  from a b integer_add_refines_dispatch [OF a b, of Builtin "\<lambda>x y c. Inr (x, c)"]
  show ?thesis by (simp only: simp_thms)
qed

text \<open>
  Claim C5: \<^verbatim>\<open>integer_max\<close> and \<^verbatim>\<open>integer_min\<close> with at least one Big operand increment
  both operands, compare (the generic comparison consumes one reference of each) and
  decrement exactly the losing operand: on either branch the heap is the initial one
  with one reference of the loser released, the winner is returned with its count as
  it was, and no count of a dead block is touched.
\<close>

theorem integer_max_min_release_loser:
  assumes "is_integer ctx x" "is_integer ctx y" "\<not> are_smallints x y"
  shows "integer_max sg (cmp_generic_contract verdict) x y ctx =
           (if 0 \<le> verdict (retained y (retained x ctx)) x y
            then Inr (x, released y ctx) else Inr (y, released x ctx))
       \<and> integer_min sg (cmp_generic_contract verdict) x y ctx =
           (if verdict (retained y (retained x ctx)) x y \<le> 0
            then Inr (x, released y ctx) else Inr (y, released x ctx))"
proof -
  have hx: "held ctx x" and hy: "held ctx y"
    using assms(1,2) by (simp_all add: held_def is_integer_big)
  have i1: "integer_incref x ctx = Inr (retained x ctx)"
    by (simp add: integer_incref_def boxed_dup_held [OF hx])
  have i2: "integer_incref y (retained x ctx) = Inr (retained y (retained x ctx))"
    by (simp add: integer_incref_def boxed_dup_held [OF held_retained [OF hy]])
  note c = cmp_contract_consumes [OF hx hy, of verdict]
  have d1: "integer_decref y ctx = Inr (released y ctx)"
    by (simp add: integer_decref_def boxed_drop_held [OF hy])
  have d2: "integer_decref x ctx = Inr (released x ctx)"
    by (simp add: integer_decref_def boxed_drop_held [OF hx])
  show ?thesis
    using assms(3)
    by (simp add: integer_max_def integer_min_def integer_gte_def integer_lte_def integer_cmp_def
        tested_def i1 i2 c d1 d2)
qed

theorem integer_max_min_release_loser_witness:
  "is_integer (\<lambda>a. if a = 4096 \<or> a = 8192 then 1 else 0) 4096
 \<and> is_integer (\<lambda>a. if a = 4096 \<or> a = 8192 then 1 else 0) 8192
 \<and> \<not> are_smallints 4096 8192
 \<and> integer_max Signed (cmp_generic_contract (\<lambda>h x y. 1)) 4096 8192
      (\<lambda>a. if a = 4096 \<or> a = 8192 then 1 else 0)
    = Inr (4096, \<lambda>a. if a = 4096 then 1 else 0)
 \<and> integer_min Signed (cmp_generic_contract (\<lambda>h x y. 1)) 4096 8192
      (\<lambda>a. if a = 4096 \<or> a = 8192 then 1 else 0)
    = Inr (8192, \<lambda>a. if a = 8192 then 1 else 0)"
proof -
  have r: "released 8192 (\<lambda>a. if a = 4096 \<or> a = 8192 then 1 else 0) = (\<lambda>a. if a = 4096 then 1 else 0)"
    "released 4096 (\<lambda>a. if a = 4096 \<or> a = 8192 then 1 else 0) = (\<lambda>a. if a = 8192 then 1 else 0)"
    by (auto simp add: released_def is_bigint_def is_ptr_fast_def fun_eq_iff)
  from is_integer_two_blocks
    integer_max_min_release_loser [OF is_integer_two_blocks, of Signed "\<lambda>h x y. 1"]
  show ?thesis by (simp add: r)
qed

text \<open>
  Claim C6: for all small-representable \<open>m\<close> and \<open>n\<close>, comparing the encoded words
  \<open>boxed m\<close> and \<open>boxed n\<close> directly preserves the order of \<open>m\<close> and \<open>n\<close>: \<^verbatim>\<open>integer_cmp\<close>
  returns -1, 0 or 1 as \<open>m < n\<close>, \<open>m = n\<close> or \<open>m > n\<close>, and \<^verbatim>\<open>integer_lt\<close>, \<^verbatim>\<open>integer_lte\<close>,
  \<^verbatim>\<open>integer_gt\<close>, \<^verbatim>\<open>integer_gte\<close>, \<^verbatim>\<open>integer_eq\<close>, \<^verbatim>\<open>integer_neq\<close> return the
  corresponding relation. The code compares two \<^verbatim>\<open>integer_t\<close> with no cast to \<^verbatim>\<open>int_t\<close>;
  on the unsigned word the header takes \<^verbatim>\<open>integer_t\<close> to be, -1 compares above 1:
  \<^verbatim>\<open>integer_cmp\<close> returns 1, \<^verbatim>\<open>integer_lt\<close> and \<^verbatim>\<open>integer_lte\<close> false, \<^verbatim>\<open>integer_gt\<close> and
  \<^verbatim>\<open>integer_gte\<close> true.
\<close>

theorem small_comparisons_misorder_mixed_signs:
  "integer_cmp Unsigned cmp_generic (boxed (- 1)) (boxed 1) ctx = Inr (1, ctx)
 \<and> integer_lt Unsigned cmp_generic (boxed (- 1)) (boxed 1) ctx = Inr (False, ctx)
 \<and> integer_lte Unsigned cmp_generic (boxed (- 1)) (boxed 1) ctx = Inr (False, ctx)
 \<and> integer_gt Unsigned cmp_generic (boxed (- 1)) (boxed 1) ctx = Inr (True, ctx)
 \<and> integer_gte Unsigned cmp_generic (boxed (- 1)) (boxed 1) ctx = Inr (True, ctx)"
proof -
  have r: "small_range (- 1)" "small_range 1"
    by (simp_all add: small_range_iff)
  have ne: "boxed (- 1) \<noteq> boxed 1"
    using boxed_inject [OF r] by auto
  show ?thesis
    by (simp add: integer_cmp_def integer_lt_def integer_lte_def integer_gt_def integer_gte_def
        are_smallints_iff is_smallint_boxed ne
        unsigned_order_of_boxed [OF r] unsigned_order_of_boxed [OF r(2,1)])
qed

text \<open>
  Claim C7: for all native-width \<open>x\<close> and \<open>y\<close> whose exact sum (difference, product) is
  representable at full native width, the generic overflow checks store that exact
  result and return false exactly when it lies within the signed \<^verbatim>\<open>SMALLINT_BITS\<close>
  range.
\<close>

theorem generic_overflow_checks:
  "(native_range (sint x + sint y) \<longrightarrow>
      sint (snd (smallint_add_ovf_generic x y)) = sint x + sint y
      \<and> (\<not> fst (smallint_add_ovf_generic x y) \<longleftrightarrow> smallint_range (sint x + sint y)))
 \<and> (native_range (sint x - sint y) \<longrightarrow>
      sint (snd (smallint_sub_ovf_generic x y)) = sint x - sint y
      \<and> (\<not> fst (smallint_sub_ovf_generic x y) \<longleftrightarrow> smallint_range (sint x - sint y)))
 \<and> (native_range (sint x * sint y) \<longrightarrow>
      sint (snd (smallint_mul_ovf_generic x y)) = sint x * sint y
      \<and> (\<not> fst (smallint_mul_ovf_generic x y) \<longleftrightarrow> smallint_range (sint x * sint y)))"
  by (simp add: add_ovf_generic sub_ovf_generic mul_ovf_generic sint_native del: of_int_add of_int_diff of_int_mult)

theorem generic_overflow_checks_witness:
  "native_range (sint (2147483647 :: int_t) + sint (2 :: int_t))
 \<and> native_range (sint (2147483647 :: int_t) - sint (2 :: int_t))
 \<and> native_range (sint (2147483647 :: int_t) * sint (2 :: int_t))
 \<and> smallint_add_ovf_generic 2147483647 2 = (True, 2147483649)
 \<and> smallint_sub_ovf_generic 2147483647 2 = (False, 2147483645)
 \<and> smallint_mul_ovf_generic 2147483647 2 = (True, 4294967294)"
proof -
  have n: "native_range (sint (2147483647 :: int_t) + sint (2 :: int_t))"
    "native_range (sint (2147483647 :: int_t) - sint (2 :: int_t))"
    "native_range (sint (2147483647 :: int_t) * sint (2 :: int_t))"
    by (simp_all add: native_range_iff)
  have v: "snd (smallint_add_ovf_generic 2147483647 2) = 2147483649"
    "snd (smallint_sub_ovf_generic 2147483647 2) = 2147483645"
    "snd (smallint_mul_ovf_generic 2147483647 2) = 4294967294"
    by (simp_all add: smallint_add_ovf_generic_def smallint_sub_ovf_generic_def smallint_mul_ovf_generic_def Let_def)
  from n generic_overflow_checks [of 2147483647 2] have
    "fst (smallint_add_ovf_generic 2147483647 2)"
    "\<not> fst (smallint_sub_ovf_generic 2147483647 2)"
    "fst (smallint_mul_ovf_generic 2147483647 2)"
    by (simp_all add: smallint_range_iff)
  with n v show ?thesis
    by (simp add: prod_eq_iff)
qed

text \<open>
  Claim C8: \<^verbatim>\<open>integer_is_zero\<close>, \<^verbatim>\<open>integer_is_one\<close> and \<^verbatim>\<open>integer_is_minus_one\<close> always
  consume their argument: on a Small argument they return whether the value is 0, 1 or
  -1 and leave every reference count as it was; on a Big argument they return false and
  decrement the count of that argument once.
\<close>

theorem zero_one_minus_one_consume:
  "(small_range n \<longrightarrow>
      integer_is_zero (boxed n) ctx = Inr (n = 0, ctx)
    \<and> integer_is_one (boxed n) ctx = Inr (n = 1, ctx)
    \<and> integer_is_minus_one (boxed n) ctx = Inr (n = - 1, ctx))
 \<and> (is_integer ctx x \<and> is_bigint x \<longrightarrow>
      integer_is_zero x ctx = Inr (False, ctx(x := ctx x - 1))
    \<and> integer_is_one x ctx = Inr (False, ctx(x := ctx x - 1))
    \<and> integer_is_minus_one x ctx = Inr (False, ctx(x := ctx x - 1)))"
proof (intro conjI impI)
  assume n: "small_range n"
  have r: "small_range 0" "small_range 1" "small_range (- 1)"
    by (simp_all add: small_range_iff)
  have e: "boxed n = boxed 0 \<longleftrightarrow> n = 0" "boxed n = boxed 1 \<longleftrightarrow> n = 1"
    "boxed n = boxed (- 1) \<longleftrightarrow> n = - 1"
    using boxed_inject [OF n r(1)] boxed_inject [OF n r(2)] boxed_inject [OF n r(3)]
    by blast+
  show "integer_is_zero (boxed n) ctx = Inr (n = 0, ctx)"
    by (simp add: integer_is_zero_def is_smallint_boxed integer_from_small_def box_int_0 e)
  show "integer_is_one (boxed n) ctx = Inr (n = 1, ctx)"
    by (simp add: integer_is_one_def is_smallint_boxed integer_from_small_def box_int_1 e)
  show "integer_is_minus_one (boxed n) ctx = Inr (n = - 1, ctx)"
    by (simp add: integer_is_minus_one_def is_smallint_boxed integer_from_small_def box_int_m1 e)
next
  assume "is_integer ctx x \<and> is_bigint x"
  then have b: "is_bigint x" and "held ctx x"
    by (simp_all add: held_def is_integer_big)
  then have d: "integer_decref x ctx = Inr (ctx(x := ctx x - 1))"
    by (simp add: integer_decref_def boxed_drop_held released_def)
  from b have s: "\<not> is_smallint x" by (simp add: is_bigint_iff)
  show "integer_is_zero x ctx = Inr (False, ctx(x := ctx x - 1))"
    by (simp add: integer_is_zero_def s d)
  show "integer_is_one x ctx = Inr (False, ctx(x := ctx x - 1))"
    by (simp add: integer_is_one_def s d)
  show "integer_is_minus_one x ctx = Inr (False, ctx(x := ctx x - 1))"
    by (simp add: integer_is_minus_one_def s d)
qed

theorem zero_one_minus_one_consume_witness:
  "small_range 0
 \<and> integer_is_zero (boxed 0) (\<lambda>a. if a = 4096 then 2 else 0) = Inr (True, \<lambda>a. if a = 4096 then 2 else 0)
 \<and> integer_is_one (boxed 0) (\<lambda>a. if a = 4096 then 2 else 0) = Inr (False, \<lambda>a. if a = 4096 then 2 else 0)
 \<and> is_integer (\<lambda>a. if a = 4096 then 2 else 0) 4096 \<and> is_bigint 4096
 \<and> integer_is_zero 4096 (\<lambda>a. if a = 4096 then 2 else 0)
     = Inr (False, (\<lambda>a. if a = 4096 then 2 else 0)(4096 := 1))"
proof -
  have z: "small_range 0" by (simp add: small_range_iff)
  from z is_integer_4096_twice
    zero_one_minus_one_consume [of 0 "\<lambda>a. if a = 4096 then 2 else 0" 4096]
  show ?thesis by simp
qed

text \<open>
  Claim C9: \<^verbatim>\<open>integer_from_int\<close> returns a Small value exactly when
  \<^verbatim>\<open>SMALLINT_MIN <= i <= SMALLINT_MAX\<close> and otherwise delegates to the big constructor; in
  particular \<^verbatim>\<open>SMALLINT_MAX\<close> is constructed Small and \<^verbatim>\<open>SMALLINT_MAX + 1\<close> is handed to
  the big constructor. That the big constructor returns Big handles is its contract and
  the hypothesis here.
\<close>

theorem integer_from_int_small_iff_in_range:
  assumes big: "\<forall>j c r c'. from_big j c = Inr (r, c') \<longrightarrow> is_bigint r"
  shows "integer_from_int from_big i ctx =
           (if small_range (sint i) then Inr (box_int i, ctx) else from_big i ctx)
       \<and> (\<forall>r c'. integer_from_int from_big i ctx = Inr (r, c') \<longrightarrow>
             (is_smallint r \<longleftrightarrow> small_range (sint i)))
       \<and> integer_from_int from_big SMALLINT_MAX ctx = Inr (box_int SMALLINT_MAX, ctx)
       \<and> integer_from_int from_big (SMALLINT_MAX + 1) ctx = from_big (SMALLINT_MAX + 1) ctx"
proof -
  have eq: "integer_from_int from_big j ctx =
      (if small_range (sint j) then Inr (box_int j, ctx) else from_big j ctx)" for j
    by (simp only: integer_from_int_def in_small_range_iff integer_from_small_def)
  have cls: "is_smallint r \<longleftrightarrow> small_range (sint i)"
    if "integer_from_int from_big i ctx = Inr (r, c')" for r c'
  proof (cases "small_range (sint i)")
    case True
    with that have "r = box_int i" by (simp add: eq)
    with True show ?thesis by (simp add: is_smallint_box_int)
  next
    case False
    with that have "from_big i ctx = Inr (r, c')" by (simp add: eq)
    with big have "is_bigint r" by blast
    with False show ?thesis by (simp add: is_bigint_iff)
  qed
  have mx: "small_range (sint SMALLINT_MAX)" "\<not> small_range (sint (SMALLINT_MAX + 1))"
    by (simp_all add: small_range_iff SMALLINT_MAX_value)
  show ?thesis
    using eq [of i] eq [of SMALLINT_MAX] eq [of "SMALLINT_MAX + 1"] cls mx
    by (simp only: if_True if_False) blast
qed

theorem integer_from_int_small_iff_in_range_witness:
  "integer_from_int (\<lambda>j c. Inr (4096, c(4096 := Suc (c 4096)))) SMALLINT_MAX (\<lambda>a. 0)
     = Inr (box_int SMALLINT_MAX, \<lambda>a. 0)
 \<and> is_smallint (box_int SMALLINT_MAX)
 \<and> integer_from_int (\<lambda>j c. Inr (4096, c(4096 := Suc (c 4096)))) (SMALLINT_MAX + 1) (\<lambda>a. 0)
     = Inr (4096, (\<lambda>a. 0)(4096 := Suc 0))
 \<and> is_bigint 4096"
proof -
  have b: "\<forall>j c r c'. (\<lambda>(j :: int_t) (c :: heap). (Inr (4096, c(4096 := Suc (c 4096))) :: fault + integer_t \<times> heap)) j c = Inr (r, c')
      \<longrightarrow> is_bigint r"
    by (simp add: is_bigint_def is_ptr_fast_def)
  note t = integer_from_int_small_iff_in_range [OF b, of SMALLINT_MAX "\<lambda>a. 0"]
  note t3 = t [THEN conjunct2, THEN conjunct2, THEN conjunct1]
  note t4 = t [THEN conjunct2, THEN conjunct2, THEN conjunct2]
  have g: "is_bigint 4096" by (simp add: is_bigint_def is_ptr_fast_def)
  from t3 t4 g is_smallint_box_int [of SMALLINT_MAX]
  show ?thesis by (simp only: simp_thms)
qed

text \<open>
  Claim C10: for every small-representable \<open>n\<close>, \<^verbatim>\<open>integer_neg\<close> on \<open>boxed n\<close> returns
  \<open>boxed (- n)\<close> whenever \<open>- n\<close> is small-representable, which fails only for
  \<open>n = SMALLINT_MIN\<close>; there the overflow check fires and the call goes to the generic
  subtraction of \<open>n\<close> from 0, so negation never wraps to a wrong Small result.
\<close>

theorem integer_neg_exact:
  assumes "small_range n"
  shows "integer_neg impl sub_generic neg_generic (boxed n) ctx =
           (if n = sint SMALLINT_MIN then sub_generic (box_int 0) (boxed n) ctx
            else Inr (boxed (- n), ctx))
       \<and> (small_range (- n) \<longleftrightarrow> n \<noteq> sint SMALLINT_MIN)"
proof -
  have "small_range (- n) \<longleftrightarrow> n \<noteq> sint SMALLINT_MIN"
    using assms unfolding small_range_iff SMALLINT_MIN_value by simp arith
  then show ?thesis
    by (simp only: neg_small [OF assms] simp_thms)
qed

theorem integer_neg_exact_witness:
  "small_range 5 \<and> small_range (- 536870912)
 \<and> integer_neg Builtin (\<lambda>x y c. Inl Dead_reference) (\<lambda>x c. Inl Dead_reference) (boxed 5) (\<lambda>a. 0)
     = Inr (boxed (- 5), \<lambda>a. 0)
 \<and> integer_neg Builtin (\<lambda>x y c. Inr (y, c)) (\<lambda>x c. Inl Dead_reference) (boxed (- 536870912)) (\<lambda>a. 0)
     = Inr (boxed (- 536870912), \<lambda>a. 0)
 \<and> \<not> small_range 536870912"
  using integer_neg_exact [of 5 Builtin "\<lambda>x y c. Inl Dead_reference" "\<lambda>x c. Inl Dead_reference" "\<lambda>a. 0"]
    integer_neg_exact [of "- 536870912" Builtin "\<lambda>x y c. Inr (y, c)" "\<lambda>x c. Inl Dead_reference" "\<lambda>a. 0"]
  by (simp add: small_range_iff SMALLINT_MIN_value)

end
